theory Spec2Isabelle
  imports Complex_Main "HOL-Library.Word"
begin

section \<open>Data model\<close>

text \<open>
  The receipt printer of \<^verbatim>\<open>src/App.tsx\<close> (\<^verbatim>\<open>printBluetoothDirect\<close>, lines 341-392) hands
  buffers to \<^verbatim>\<open>sendDataToPrinter\<close> one at a time. Every buffer is either one of the nine
  constants imported from \<^verbatim>\<open>./utils/bluetoothUtils\<close> (lines 6-11) or \<^verbatim>\<open>textToBytes(s)\<close>
  for a string \<open>s\<close>. The module \<^verbatim>\<open>utils/bluetoothUtils\<close> is not among the sources, so a
  buffer is kept as the expression the caller wrote: the constant's name, or \<open>Text s\<close> for
  \<^verbatim>\<open>textToBytes(s)\<close>. Two runs that hand over the same buffers in this sense hand over the
  same bytes, whatever the literals and the encoder are.

  JavaScript strings are modelled as HOL strings. The program reads a string only to test
  it for emptiness, to look for \<^verbatim>\<open>/\<close> and \<^verbatim>\<open>-\<close> in a date, and to concatenate it with ASCII
  literals.
\<close>

datatype PrinterCommand =
    ESC_INIT
  | ESC_ALIGN_CENTER
  | ESC_ALIGN_LEFT
  | ESC_BOLD_ON
  | ESC_BOLD_OFF
  | ESC_FEED
  | FONT_SIZE_NORMAL
  | FONT_SIZE_LARGE
  | FONT_SIZE_DOUBLE_HEIGHT
  | Text string

text \<open>
  \<^verbatim>\<open>PrinterSettings.paperWidth\<close> is \<^verbatim>\<open>'58mm' | '80mm'\<close> (\<^verbatim>\<open>src/unnamed/part_000\<close>, line 32);
  \<open>Narrow\<close> stands for \<^verbatim>\<open>'58mm'\<close> and \<open>Wide\<close> for \<^verbatim>\<open>'80mm'\<close>.
\<close>

datatype PaperProfile = Narrow | Wide

datatype FontSize = Small | Normal | Large

datatype PaymentMethod = TUNAI | ONLINE | QR

text \<open>The fields of \<^verbatim>\<open>PrinterSettings\<close> that concern the printer (the sync and auto-save
  fields are left out: \<^verbatim>\<open>printBluetoothDirect\<close> reads none of them). \<^verbatim>\<open>extraFeeds\<close> is a
  JavaScript number; it is taken to be an integer.\<close>

record PrinterSettings =
  paperWidth :: PaperProfile
  fontSize :: FontSize
  extraFeeds :: int
  boldHeaders :: bool
  footerText :: string
  includePhone :: bool
  includeAddress :: bool

text \<open>The \<^verbatim>\<open>clientForm\<close> state (lines 79-85).\<close>

record ClientForm =
  date :: string
  name :: string
  phone :: string
  address :: string
  payment :: PaymentMethod

text \<open>\<^verbatim>\<open>CartItem\<close>; the price is a JavaScript number, kept abstract as \<open>'n\<close>.\<close>

record 'n CartItem =
  id' :: string
  name :: string
  price :: 'n

text \<open>\<^verbatim>\<open>BluetoothState\<close>: \<open>characteristic\<close> is the writable handle, \<open>None\<close> for \<^verbatim>\<open>null\<close>.\<close>

record 'c BluetoothState =
  characteristic :: "'c option"
  status :: string
  connected :: bool

text \<open>The component state that \<^verbatim>\<open>printBluetoothDirect\<close> closes over. \<open>total'\<close> is the
  memoised cart total (lines 118-120).\<close>

record ('c, 'n) AppState =
  bt :: "'c BluetoothState"
  printerSettings :: PrinterSettings
  clientForm :: ClientForm
  cart :: "'n CartItem list"
  total' :: 'n

section \<open>Effects\<close>

text \<open>
  What a run does to the outside: the state of the link (\<open>world\<close>), the calls of the
  transport in the order they began and completed (\<open>trace\<close>), the \<^verbatim>\<open>alert\<close> boxes shown,
  and the \<^verbatim>\<open>isPrintConfirmOpen\<close> flag. A thrown value is kept as the string that
  \<^verbatim>\<open>"..." + e\<close> renders.
\<close>

datatype 'b event = Begun 'b | Completed 'b "string option"

record ('w, 'b) effects =
  world :: 'w
  trace :: "'b event list"
  alerts :: "string list"
  isPrintConfirmOpen :: bool

type_synonym ('w, 'b) action = "('w, 'b) effects \<Rightarrow> string option \<times> ('w, 'b) effects"

text \<open>\<^verbatim>\<open>await f(b)\<close>: the call begins, runs to its completion on the link, and only then
  control returns, with \<open>Some e\<close> when the promise was rejected with \<open>e\<close>.\<close>

definition await_call :: "('b \<Rightarrow> 'w \<Rightarrow> string option \<times> 'w) \<Rightarrow> 'b \<Rightarrow> ('w, 'b) action" where
  "await_call f b fx =
     (case f b (world fx) of
        (r, w') \<Rightarrow> (r, fx\<lparr>world := w', trace := trace fx @ [Begun b, Completed b r]\<rparr>))"

text \<open>Statements in sequence: the first one that throws ends the block.\<close>

fun in_sequence :: "('w, 'b) action list \<Rightarrow> ('w, 'b) action" where
  "in_sequence [] fx = (None, fx)"
| "in_sequence (a # as) fx =
     (case a fx of
        (None, fx') \<Rightarrow> in_sequence as fx'
      | (Some e, fx') \<Rightarrow> (Some e, fx'))"

text \<open>The empty statement, and \<^verbatim>\<open>if (b) stmt\<close> without an else branch.\<close>

definition skip :: "('w, 'b) action" where
  "skip fx = (None, fx)"

definition when' :: "bool \<Rightarrow> ('w, 'b) action \<Rightarrow> ('w, 'b) action" where
  "when' b a = (if b then a else skip)"

text \<open>Two statements in a row; \<open>in_sequence (a # as)\<close> is \<open>and_then a (in_sequence as)\<close>.\<close>

definition and_then :: "('w, 'b) action \<Rightarrow> ('w, 'b) action \<Rightarrow> ('w, 'b) action" where
  "and_then a k fx = (case a fx of (None, fx') \<Rightarrow> k fx' | (Some e, fx') \<Rightarrow> (Some e, fx'))"

text \<open>A list of buffers written one after the other through the same awaited call.\<close>

definition write_all :: "('b \<Rightarrow> 'w \<Rightarrow> string option \<times> 'w) \<Rightarrow> 'b list \<Rightarrow> ('w, 'b) action" where
  "write_all tx bs = in_sequence (map (await_call tx) bs)"

subsection \<open>Reading a trace\<close>

text \<open>The buffers whose write began, in the order they began; the writes that completed,
  each with its outcome; and the predicate that no write began while another was in
  flight: every \<open>Begun b\<close> is directly followed by the \<open>Completed b r\<close> of the same buffer.\<close>

fun begun :: "'b event list \<Rightarrow> 'b list" where
  "begun [] = []"
| "begun (Begun b # es) = b # begun es"
| "begun (Completed b r # es) = begun es"

fun completed :: "'b event list \<Rightarrow> ('b \<times> string option) list" where
  "completed [] = []"
| "completed (Begun b # es) = completed es"
| "completed (Completed b r # es) = (b, r) # completed es"

fun one_at_a_time :: "'b event list \<Rightarrow> bool" where
  "one_at_a_time [] = True"
| "one_at_a_time (Begun b # Completed b' r # es) = (b = b' \<and> one_at_a_time es)"
| "one_at_a_time es = False"

text \<open>The events a run added to the trace, and the buffers it handed to the transport.\<close>

definition events_since :: "('w, 'b) effects \<Rightarrow> ('w, 'b) effects \<Rightarrow> 'b event list" where
  "events_since fx fx' = drop (length (trace fx)) (trace fx')"

definition calls_since :: "('w, 'b) effects \<Rightarrow> ('w, 'b) effects \<Rightarrow> 'b list" where
  "calls_since fx fx' = begun (events_since fx fx')"

text \<open>What a transport answers to a list of buffers offered in order from the state \<open>w\<close>,
  up to and including its first rejection; and the events of such a list of answers.\<close>

fun attempts :: "('b \<Rightarrow> 'w \<Rightarrow> string option \<times> 'w) \<Rightarrow> 'b list \<Rightarrow> 'w \<Rightarrow> ('b \<times> string option) list" where
  "attempts tx [] w = []"
| "attempts tx (c # cs) w =
     (case tx c w of
        (None, w') \<Rightarrow> (c, None) # attempts tx cs w'
      | (Some e, w') \<Rightarrow> [(c, Some e)])"

fun events_of :: "('b \<times> string option) list \<Rightarrow> 'b event list" where
  "events_of [] = []"
| "events_of ((c, r) # as) = Begun c # Completed c r # events_of as"

section \<open>The parts of the program that are not in the sources\<close>

text \<open>
  \<open>transport\<close> is what \<^verbatim>\<open>sendDataToPrinter(char, buffer)\<close> does on the link: any function of
  the handle, the buffer and the link's state. \<open>toFixed2\<close> is \<^verbatim>\<open>Number.prototype.toFixed(2)\<close>.
  \<open>lineTerminator\<close> is the line terminator the device expects.
\<close>

record ('c, 'n, 'w) externals =
  transport :: "'c \<Rightarrow> PrinterCommand \<Rightarrow> 'w \<Rightarrow> string option \<times> 'w"
  toFixed2 :: "'n \<Rightarrow> string"
  lineTerminator :: string

definition sendDataToPrinter ::
  "('c, 'n, 'w) externals \<Rightarrow> 'c \<Rightarrow> PrinterCommand \<Rightarrow> ('w, PrinterCommand) action" where
  "sendDataToPrinter ext char buffer = await_call (transport ext char) buffer"

text \<open>Modelled from the spec: \<^verbatim>\<open>getSeparator\<close> of \<^verbatim>\<open>utils/bluetoothUtils\<close> is missing. Section 4.1:
  a dash line exactly \<open>width profile\<close> characters long, followed by the line terminator
  expected by the device; \<open>width Narrow = 32\<close>, \<open>width Wide = 48\<close>.\<close>

fun width :: "PaperProfile \<Rightarrow> nat" where
  "width Narrow = 32"
| "width Wide = 48"

definition getSeparator :: "string \<Rightarrow> PaperProfile \<Rightarrow> string" where
  "getSeparator eol profile = replicate (width profile) (CHR ''-'') @ eol"

section \<open>Date formatting (lines 38-44)\<close>

text \<open>\<^verbatim>\<open>String.prototype.split\<close> with a one-character separator.\<close>

fun js_split :: "char \<Rightarrow> string \<Rightarrow> string list" where
  "js_split sep [] = [[]]"
| "js_split sep (c # cs) =
     (if c = sep then [] # js_split sep cs
      else (case js_split sep cs of
              [] \<Rightarrow> [[c]]
            | p # ps \<Rightarrow> (c # p) # ps))"

text \<open>An element of a destructured array, as a template literal renders it: a missing
  element is \<^verbatim>\<open>undefined\<close>.\<close>

definition destructured :: "string list \<Rightarrow> nat \<Rightarrow> string" where
  "destructured parts i = (if i < length parts then parts ! i else ''undefined'')"

definition formatDateForDisplay :: "string \<Rightarrow> string" where
  "formatDateForDisplay isoDate =
     (if isoDate = [] then ''-''
      else if CHR ''/'' \<in> set isoDate then isoDate
      else (let parts = js_split (CHR ''-'') isoDate;
                y = destructured parts 0;
                m = destructured parts 1;
                d = destructured parts 2
            in d @ ''/'' @ m @ ''/'' @ y))"

section \<open>printBluetoothDirect (lines 341-392)\<close>

text \<open>The statements of the \<^verbatim>\<open>try\<close> block, lines 344-386, one list element per statement.\<close>

definition print_job ::
  "('c, 'n, 'w) externals \<Rightarrow> 'c \<Rightarrow> ('c, 'n) AppState \<Rightarrow> bool \<Rightarrow> ('w, PrinterCommand) action" where
  "print_job ext char st isTest =
     (let sep = getSeparator (lineTerminator ext) (paperWidth (printerSettings st)) in
      in_sequence
       [sendDataToPrinter ext char ESC_INIT,
        sendDataToPrinter ext char ESC_ALIGN_CENTER,
        when' (boldHeaders (printerSettings st)) (sendDataToPrinter ext char ESC_BOLD_ON),
        sendDataToPrinter ext char FONT_SIZE_LARGE,
        sendDataToPrinter ext char (Text ''HAIRI MUSTAFA ASSOCIATES''),
        sendDataToPrinter ext char FONT_SIZE_NORMAL,
        when' (boldHeaders (printerSettings st)) (sendDataToPrinter ext char ESC_BOLD_OFF),
        sendDataToPrinter ext char (Text ''Peguam Syarie & PJS''),
        sendDataToPrinter ext char (Text ''011-5653 1310''),
        sendDataToPrinter ext char (Text sep),
        sendDataToPrinter ext char ESC_ALIGN_LEFT,
        sendDataToPrinter ext char
          (Text (''Tarikh: '' @ formatDateForDisplay (date (clientForm st)))),
        sendDataToPrinter ext char
          (Text (''Nama: '' @ (if isTest then ''TEST PRINT'' else ClientForm.name (clientForm st)))),
        when' (\<not> isTest \<and> includePhone (printerSettings st) \<and> phone (clientForm st) \<noteq> [])
          (sendDataToPrinter ext char (Text (''Tel: '' @ phone (clientForm st)))),
        when' (\<not> isTest \<and> includeAddress (printerSettings st) \<and> address (clientForm st) \<noteq> [])
          (sendDataToPrinter ext char (Text (''Alamat: '' @ address (clientForm st)))),
        sendDataToPrinter ext char (Text sep),
        (if isTest then
           in_sequence
            [sendDataToPrinter ext char (Text ''TEST SERVICE''),
             sendDataToPrinter ext char (Text ''RM 10.00'')]
         else
           in_sequence
            (map (\<lambda>item. in_sequence
                    [sendDataToPrinter ext char (Text (CartItem.name item)),
                     sendDataToPrinter ext char (Text (''RM '' @ toFixed2 ext (price item)))])
                 (cart st))),
        sendDataToPrinter ext char (Text sep),
        sendDataToPrinter ext char ESC_ALIGN_CENTER,
        sendDataToPrinter ext char ESC_BOLD_ON,
        sendDataToPrinter ext char FONT_SIZE_DOUBLE_HEIGHT,
        sendDataToPrinter ext char
          (Text (''JUMLAH: RM '' @ (if isTest then ''10.00'' else toFixed2 ext (total' st)))),
        sendDataToPrinter ext char FONT_SIZE_NORMAL,
        sendDataToPrinter ext char ESC_BOLD_OFF,
        sendDataToPrinter ext char
          (Text (if footerText (printerSettings st) = [] then ''Terima Kasih''
                 else footerText (printerSettings st))),
        in_sequence
          (replicate (nat (extraFeeds (printerSettings st))) (sendDataToPrinter ext char ESC_FEED))])"

text \<open>The whole function: the guard of line 342 returns before the \<^verbatim>\<open>try\<close>; the \<^verbatim>\<open>catch\<close> shows
  the thrown value; the \<^verbatim>\<open>finally\<close> closes the print confirmation.\<close>

definition printBluetoothDirect ::
  "('c, 'n, 'w) externals \<Rightarrow> ('c, 'n) AppState \<Rightarrow> bool \<Rightarrow>
     ('w, PrinterCommand) effects \<Rightarrow> ('w, PrinterCommand) effects" where
  "printBluetoothDirect ext st isTest fx =
     (case characteristic (bt st) of
        None \<Rightarrow> fx\<lparr>alerts := alerts fx @ [''Sila sambung Bluetooth dahulu'']\<rparr>
      | Some char \<Rightarrow>
          (case print_job ext char st isTest fx of
             (None, fx') \<Rightarrow> fx'\<lparr>isPrintConfirmOpen := False\<rparr>
           | (Some e, fx') \<Rightarrow>
               fx'\<lparr>alerts := alerts fx' @ [''Ralat cetakan Bluetooth: '' @ e],
                   isPrintConfirmOpen := False\<rparr>))"


section \<open>The receipt as a list of buffers\<close>

text \<open>The buffers of lines 346-386 in program order, by part of the receipt: the header
  (lines 346-355), the customer block (356-368), the line items (369-378), the total
  (379-384), the footer (385) and the feeds (386).\<close>

definition header_cmds :: "('c, 'n, 'w) externals \<Rightarrow> ('c, 'n) AppState \<Rightarrow> PrinterCommand list" where
  "header_cmds ext st =
     [ESC_INIT, ESC_ALIGN_CENTER]
     @ (if boldHeaders (printerSettings st) then [ESC_BOLD_ON] else [])
     @ [FONT_SIZE_LARGE, Text ''HAIRI MUSTAFA ASSOCIATES'', FONT_SIZE_NORMAL]
     @ (if boldHeaders (printerSettings st) then [ESC_BOLD_OFF] else [])
     @ [Text ''Peguam Syarie & PJS'', Text ''011-5653 1310'',
        Text (getSeparator (lineTerminator ext) (paperWidth (printerSettings st)))]"

definition customer_cmds ::
  "('c, 'n, 'w) externals \<Rightarrow> ('c, 'n) AppState \<Rightarrow> bool \<Rightarrow> PrinterCommand list" where
  "customer_cmds ext st isTest =
     [ESC_ALIGN_LEFT,
      Text (''Tarikh: '' @ formatDateForDisplay (date (clientForm st))),
      Text (''Nama: '' @ (if isTest then ''TEST PRINT'' else ClientForm.name (clientForm st)))]
     @ (if \<not> isTest \<and> includePhone (printerSettings st) \<and> phone (clientForm st) \<noteq> []
        then [Text (''Tel: '' @ phone (clientForm st))] else [])
     @ (if \<not> isTest \<and> includeAddress (printerSettings st) \<and> address (clientForm st) \<noteq> []
        then [Text (''Alamat: '' @ address (clientForm st))] else [])
     @ [Text (getSeparator (lineTerminator ext) (paperWidth (printerSettings st)))]"

definition item_cmds ::
  "('c, 'n, 'w) externals \<Rightarrow> ('c, 'n) AppState \<Rightarrow> bool \<Rightarrow> PrinterCommand list" where
  "item_cmds ext st isTest =
     (if isTest then [Text ''TEST SERVICE'', Text ''RM 10.00'']
      else concat (map (\<lambda>item. [Text (CartItem.name item),
                                 Text (''RM '' @ toFixed2 ext (price item))]) (cart st)))
     @ [Text (getSeparator (lineTerminator ext) (paperWidth (printerSettings st)))]"

definition total_cmds ::
  "('c, 'n, 'w) externals \<Rightarrow> ('c, 'n) AppState \<Rightarrow> bool \<Rightarrow> PrinterCommand list" where
  "total_cmds ext st isTest =
     [ESC_ALIGN_CENTER, ESC_BOLD_ON, FONT_SIZE_DOUBLE_HEIGHT,
      Text (''JUMLAH: RM '' @ (if isTest then ''10.00'' else toFixed2 ext (total' st))),
      FONT_SIZE_NORMAL, ESC_BOLD_OFF]"

definition footer_cmds :: "('c, 'n) AppState \<Rightarrow> PrinterCommand list" where
  "footer_cmds st =
     [Text (if footerText (printerSettings st) = [] then ''Terima Kasih''
            else footerText (printerSettings st))]"

definition feed_cmds :: "('c, 'n) AppState \<Rightarrow> PrinterCommand list" where
  "feed_cmds st = replicate (nat (extraFeeds (printerSettings st))) ESC_FEED"

definition receipt_cmds ::
  "('c, 'n, 'w) externals \<Rightarrow> ('c, 'n) AppState \<Rightarrow> bool \<Rightarrow> PrinterCommand list" where
  "receipt_cmds ext st isTest =
     header_cmds ext st @ customer_cmds ext st isTest @ item_cmds ext st isTest
     @ total_cmds ext st isTest @ footer_cmds st @ feed_cmds st"

text \<open>The spec's \<^verbatim>\<open>send_sequence\<close> (section 4.2): iterate the list in order, one awaited
  \<^verbatim>\<open>sendDataToPrinter\<close> per buffer, stopping at the first failure.\<close>

definition send_sequence ::
  "('c, 'n, 'w) externals \<Rightarrow> 'c \<Rightarrow> PrinterCommand list \<Rightarrow> ('w, PrinterCommand) action" where
  "send_sequence ext char buffers = in_sequence (map (sendDataToPrinter ext char) buffers)"

section \<open>The formatting state of the printer\<close>

text \<open>What the claims call the bold state and the font size of the device, as far as the
  commands of this program set them: \<^verbatim>\<open>ESC_INIT\<close> resets both, the bold and font-size
  commands set one each, and alignment, feed and text leave both as they are.\<close>

datatype GlyphSize = SizeNormal | SizeLarge | SizeDoubleHeight

record Formatting =
  bold :: bool
  glyphSize :: GlyphSize

fun apply_command :: "Formatting \<Rightarrow> PrinterCommand \<Rightarrow> Formatting" where
  "apply_command f ESC_INIT = \<lparr>bold = False, glyphSize = SizeNormal\<rparr>"
| "apply_command f ESC_BOLD_ON = f\<lparr>bold := True\<rparr>"
| "apply_command f ESC_BOLD_OFF = f\<lparr>bold := False\<rparr>"
| "apply_command f FONT_SIZE_NORMAL = f\<lparr>glyphSize := SizeNormal\<rparr>"
| "apply_command f FONT_SIZE_LARGE = f\<lparr>glyphSize := SizeLarge\<rparr>"
| "apply_command f FONT_SIZE_DOUBLE_HEIGHT = f\<lparr>glyphSize := SizeDoubleHeight\<rparr>"
| "apply_command f ESC_ALIGN_CENTER = f"
| "apply_command f ESC_ALIGN_LEFT = f"
| "apply_command f ESC_FEED = f"
| "apply_command f (Text s) = f"

definition formatting_after :: "Formatting \<Rightarrow> PrinterCommand list \<Rightarrow> Formatting" where
  "formatting_after f cmds = foldl apply_command f cmds"

section \<open>The encoder and the chunking writer, from the spec\<close>

type_synonym byte = "8 word"

text \<open>Modelled from the spec: \<^verbatim>\<open>textToBytes\<close> of \<^verbatim>\<open>utils/bluetoothUtils\<close> is missing. Section 4.1:
  for \<^verbatim>\<open>Text(s)\<close>, each character is converted to its single-byte code point; a character
  outside the representable range is replaced by a fallback byte, the placeholder \<^verbatim>\<open>?\<close>.
  A string is the list of its characters' code points; a code point is representable when
  it fits one byte.\<close>

definition representable :: "nat \<Rightarrow> bool" where
  "representable c = (c < 256)"

definition fallback_byte :: byte where
  "fallback_byte = 0x3F"

definition textToBytes :: "nat list \<Rightarrow> byte list" where
  "textToBytes s = map (\<lambda>c. if representable c then of_nat c else fallback_byte) s"

text \<open>Modelled from the spec: the body of \<^verbatim>\<open>sendDataToPrinter\<close> (\<^verbatim>\<open>utils/bluetoothUtils\<close>) is
  missing. Section 4.2, \<^verbatim>\<open>send\<close>: a buffer within the limit \<open>L\<close> is written as it is; a larger
  one is split into sequential sub-writes, each no larger than the limit, transmitted in
  order, each awaited before the next begins. The spec gives a limit of 0 no meaning; the
  buffer is then written as it is.\<close>

function chunks :: "nat \<Rightarrow> 'a list \<Rightarrow> 'a list list" where
  "chunks L buffer =
     (if L = 0 \<or> length buffer \<le> L then [buffer]
      else take L buffer # chunks L (drop L buffer))"
  by pat_completeness auto
termination
  by (relation "measure (\<lambda>(L, buffer). length buffer)") auto

definition send ::
  "nat \<Rightarrow> (byte list \<Rightarrow> 'w \<Rightarrow> string option \<times> 'w) \<Rightarrow> byte list \<Rightarrow> ('w, byte list) action" where
  "send L writeValue buffer = write_all writeValue (chunks L buffer)"

section \<open>Example inputs\<close>

text \<open>The settings a fresh installation starts with (lines 13-25).\<close>

definition DEFAULT_PRINTER_SETTINGS :: PrinterSettings where
  "DEFAULT_PRINTER_SETTINGS =
     \<lparr>paperWidth = Narrow, fontSize = Normal, extraFeeds = 3, boldHeaders = True,
      footerText = ''Terima Kasih atas urusan anda.'',
      includePhone = True, includeAddress = True\<rparr>"

text \<open>A link whose state counts the writes offered so far; it rejects the write with the
  given number, if any, and accepts every other one.\<close>

definition example_transport ::
  "nat option \<Rightarrow> unit \<Rightarrow> PrinterCommand \<Rightarrow> nat \<Rightarrow> string option \<times> nat" where
  "example_transport rejected char buffer w =
     (if rejected = Some w then Some ''NetworkError: GATT operation failed'' else None, Suc w)"

text \<open>Prices in ringgit; \<open>example_toFixed2\<close> renders the three amounts of the example.\<close>

definition example_toFixed2 :: "nat \<Rightarrow> string" where
  "example_toFixed2 p = (if p = 150 then ''150.00'' else if p = 80 then ''80.00'' else ''230.00'')"

definition example_ext :: "nat option \<Rightarrow> (unit, nat, nat) externals" where
  "example_ext rejected =
     \<lparr>transport = example_transport rejected, toFixed2 = example_toFixed2,
      lineTerminator = [CHR 0x0A]\<rparr>"

definition example_state :: "(unit, nat) AppState" where
  "example_state =
     \<lparr>bt = \<lparr>characteristic = Some (), status = ''Bluetooth: BERSAMBUNG (MPT-II)'',
            connected = True\<rparr>,
      printerSettings = DEFAULT_PRINTER_SETTINGS,
      clientForm = \<lparr>date = ''2024-03-15'', name = ''AHMAD BIN ALI'', phone = ''012-3456789'',
                    address = ''KUANTAN'', payment = TUNAI\<rparr>,
      cart = [\<lparr>id' = ''1710460800000'', name = ''AKUAN SUMPAH'', price = 150\<rparr>,
              \<lparr>id' = ''1710460800001'', name = ''SURAT KUASA'', price = 80\<rparr>],
      total' = 230\<rparr>"

text \<open>The same state after the \<^verbatim>\<open>gattserverdisconnected\<close> handler ran (line 326).\<close>

definition disconnected_state :: "(unit, nat) AppState" where
  "disconnected_state =
     example_state\<lparr>bt := \<lparr>characteristic = None, status = ''Bluetooth: Terputus'',
                           connected = False\<rparr>\<rparr>"

text \<open>Nothing written yet, no alert shown, the print confirmation open.\<close>

definition idle :: "(nat, PrinterCommand) effects" where
  "idle = \<lparr>world = 0, trace = [], alerts = [], isPrintConfirmOpen = True\<rparr>"

text \<open>The example state with a footer that gives the office's telephone number.\<close>

definition footer_tel_state :: "(unit, nat) AppState" where
  "footer_tel_state =
     example_state\<lparr>printerSettings :=
       DEFAULT_PRINTER_SETTINGS\<lparr>footerText := ''Tel: 011-5653 1310''\<rparr>\<rparr>"

text \<open>A characteristic that accepts every write and counts the bytes it was given.\<close>

definition counting_writeValue :: "byte list \<Rightarrow> nat \<Rightarrow> string option \<times> nat" where
  "counting_writeValue chunk w = (None, w + length chunk)"

definition fresh :: "(nat, byte list) effects" where
  "fresh = \<lparr>world = 0, trace = [], alerts = [], isPrintConfirmOpen = False\<rparr>"

section \<open>Sequencing lemmas\<close>

lemma in_sequence_Nil_fun: "in_sequence [] = skip"
  by (rule ext) (simp add: skip_def)

lemma in_sequence_Cons_fun: "in_sequence (a # as) = and_then a (in_sequence as)"
  by (rule ext) (simp add: and_then_def)

lemma and_then_skip_left: "and_then skip k = k"
  by (rule ext) (simp add: and_then_def skip_def)

lemma and_then_skip_right: "and_then a skip = a"
  by (rule ext) (simp add: and_then_def skip_def split: prod.splits option.splits)

lemma and_then_assoc: "and_then (and_then a b) c = and_then a (and_then b c)"
  by (rule ext) (simp add: and_then_def split: prod.splits option.splits)

lemma in_sequence_append_fun:
  "in_sequence (as @ bs) = and_then (in_sequence as) (in_sequence bs)"
proof (induction as)
  case Nil
  show ?case by (simp add: in_sequence_Nil_fun and_then_skip_left)
next
  case (Cons a as)
  show ?case
    using Cons.IH by (simp add: in_sequence_Cons_fun and_then_assoc)
qed

lemma in_sequence_concat_fun:
  "in_sequence (map g (concat (map f xs))) = in_sequence (map (\<lambda>x. in_sequence (map g (f x))) xs)"
  by (induction xs) (simp_all add: in_sequence_append_fun in_sequence_Cons_fun)

text \<open>The \<^verbatim>\<open>try\<close> block does what \<^verbatim>\<open>send_sequence\<close> does on the receipt's buffers.\<close>

lemma print_job_send_sequence:
  "print_job ext char st isTest = send_sequence ext char (receipt_cmds ext st isTest)"
  unfolding print_job_def send_sequence_def receipt_cmds_def header_cmds_def customer_cmds_def
    item_cmds_def total_cmds_def footer_cmds_def feed_cmds_def Let_def
  by (simp add: in_sequence_append_fun in_sequence_Cons_fun in_sequence_Nil_fun when'_def
      and_then_skip_left and_then_skip_right and_then_assoc in_sequence_concat_fun)

lemma send_sequence_write_all:
  "send_sequence ext char cs = write_all (transport ext char) cs"
  by (simp add: send_sequence_def write_all_def sendDataToPrinter_def [abs_def])

subsection \<open>Traces of \<open>write_all\<close>\<close>

lemma write_all_Nil: "write_all tx [] fx = (None, fx)"
  by (simp add: write_all_def)

lemma write_all_Cons:
  "write_all tx (c # cs) fx =
     (case tx c (world fx) of
        (None, w') \<Rightarrow>
          write_all tx cs (fx\<lparr>world := w', trace := trace fx @ [Begun c, Completed c None]\<rparr>)
      | (Some e, w') \<Rightarrow>
          (Some e, fx\<lparr>world := w', trace := trace fx @ [Begun c, Completed c (Some e)]\<rparr>))"
  by (simp add: write_all_def await_call_def split: prod.splits option.splits)

lemma write_all_append:
  "write_all tx (cs @ ds) fx =
     (case write_all tx cs fx of
        (None, fx') \<Rightarrow> write_all tx ds fx'
      | (Some e, fx') \<Rightarrow> (Some e, fx'))"
  by (simp add: write_all_def in_sequence_append_fun and_then_def
      split: prod.splits option.splits)

lemma one_at_a_time_events_of: "one_at_a_time (events_of as)"
  by (induction as rule: events_of.induct) simp_all

lemma begun_events_of: "begun (events_of as) = map fst as"
  by (induction as rule: events_of.induct) simp_all

lemma completed_events_of: "completed (events_of as) = as"
  by (induction as rule: events_of.induct) simp_all

lemma length_attempts: "length (attempts tx cs w) \<le> length cs"
  by (induction cs arbitrary: w) (auto split: prod.splits option.splits)

lemma attempts_prefix: "map fst (attempts tx cs w) = take (length (attempts tx cs w)) cs"
  by (induction cs arbitrary: w) (auto split: prod.splits option.splits)

lemma write_all_trace:
  "trace (snd (write_all tx cs fx)) = trace fx @ events_of (attempts tx cs (world fx))"
proof (induction cs arbitrary: fx)
  case Nil
  show ?case by (simp add: write_all_Nil)
next
  case (Cons c cs)
  obtain r w' where step: "tx c (world fx) = (r, w')"
    by (cases "tx c (world fx)")
  show ?case
  proof (cases r)
    case (Some e)
    then show ?thesis using step by (simp add: write_all_Cons)
  next
    case None
    then show ?thesis using step Cons.IH by (simp add: write_all_Cons)
  qed
qed

lemma write_all_frame:
  "alerts (snd (write_all tx cs fx)) = alerts fx
   \<and> isPrintConfirmOpen (snd (write_all tx cs fx)) = isPrintConfirmOpen fx"
proof (induction cs arbitrary: fx)
  case Nil
  show ?case by (simp add: write_all_Nil)
next
  case (Cons c cs)
  obtain r w' where step: "tx c (world fx) = (r, w')"
    by (cases "tx c (world fx)")
  show ?case
  proof (cases r)
    case (Some e)
    then show ?thesis using step by (simp add: write_all_Cons)
  next
    case None
    then show ?thesis using step Cons.IH by (simp add: write_all_Cons)
  qed
qed

lemma write_all_None:
  "fst (write_all tx cs fx) = None \<Longrightarrow> attempts tx cs (world fx) = map (\<lambda>c. (c, None)) cs"
proof (induction cs arbitrary: fx)
  case Nil
  show ?case by simp
next
  case (Cons c cs)
  obtain r w' where step: "tx c (world fx) = (r, w')"
    by (cases "tx c (world fx)")
  show ?case
  proof (cases r)
    case (Some e)
    then show ?thesis using step Cons.prems by (simp add: write_all_Cons)
  next
    case None
    then show ?thesis
      using step Cons.prems
        Cons.IH [of "fx\<lparr>world := w', trace := trace fx @ [Begun c, Completed c None]\<rparr>"]
      by (simp add: write_all_Cons)
  qed
qed

lemma write_all_fails_at:
  assumes i: "i < length cs"
    and before: "write_all tx (take i cs) fx = (None, fxi)"
    and fails: "tx (cs ! i) (world fxi) = (Some e, w')"
  shows "write_all tx cs fx =
     (Some e, fxi\<lparr>world := w', trace := trace fxi @ [Begun (cs ! i), Completed (cs ! i) (Some e)]\<rparr>)"
proof -
  have "cs = take i cs @ cs ! i # drop (Suc i) cs"
    using i by (simp add: id_take_nth_drop)
  then have "write_all tx cs fx = write_all tx (take i cs @ cs ! i # drop (Suc i) cs) fx"
    by simp
  also have "\<dots> = write_all tx (cs ! i # drop (Suc i) cs) fxi"
    using before by (simp add: write_all_append)
  also have "\<dots> =
      (Some e, fxi\<lparr>world := w', trace := trace fxi @ [Begun (cs ! i), Completed (cs ! i) (Some e)]\<rparr>)"
    using fails by (simp add: write_all_Cons)
  finally show ?thesis .
qed

lemma begun_append: "begun (xs @ ys) = begun xs @ begun ys"
  by (induction xs rule: begun.induct) simp_all

lemma completed_append: "completed (xs @ ys) = completed xs @ completed ys"
  by (induction xs rule: completed.induct) simp_all

lemma one_at_a_time_append:
  "one_at_a_time xs \<Longrightarrow> one_at_a_time (xs @ ys) = one_at_a_time ys"
  by (induction xs rule: one_at_a_time.induct) simp_all

lemma printBluetoothDirect_connected:
  assumes "characteristic (bt st) = Some char"
  shows "printBluetoothDirect ext st isTest fx =
     (case write_all (transport ext char) (receipt_cmds ext st isTest) fx of
        (None, fx') \<Rightarrow> fx'\<lparr>isPrintConfirmOpen := False\<rparr>
      | (Some e, fx') \<Rightarrow>
          fx'\<lparr>alerts := alerts fx' @ [''Ralat cetakan Bluetooth: '' @ e],
              isPrintConfirmOpen := False\<rparr>)"
  using assms
  by (simp add: printBluetoothDirect_def print_job_send_sequence send_sequence_write_all)

lemma printBluetoothDirect_trace:
  assumes "characteristic (bt st) = Some char"
  shows "trace (printBluetoothDirect ext st isTest fx) =
     trace fx @ events_of (attempts (transport ext char) (receipt_cmds ext st isTest) (world fx))"
proof -
  have "trace (printBluetoothDirect ext st isTest fx) =
      trace (snd (write_all (transport ext char) (receipt_cmds ext st isTest) fx))"
    by (simp add: printBluetoothDirect_connected [OF assms] split: prod.splits option.splits)
  then show ?thesis by (simp add: write_all_trace)
qed

lemma printBluetoothDirect_alerts:
  assumes "characteristic (bt st) = Some char"
  shows "alerts (printBluetoothDirect ext st isTest fx) =
     (case fst (write_all (transport ext char) (receipt_cmds ext st isTest) fx) of
        None \<Rightarrow> alerts fx
      | Some e \<Rightarrow> alerts fx @ [''Ralat cetakan Bluetooth: '' @ e])"
proof -
  obtain r fx' where run: "write_all (transport ext char) (receipt_cmds ext st isTest) fx = (r, fx')"
    by (cases "write_all (transport ext char) (receipt_cmds ext st isTest) fx")
  have "alerts fx' = alerts fx"
    using write_all_frame [of "transport ext char" "receipt_cmds ext st isTest" fx] run by simp
  then show ?thesis
    using run by (simp add: printBluetoothDirect_connected [OF assms] split: option.splits)
qed

lemma write_all_seen:
  "\<exists>n. n \<le> length cs
     \<and> trace (snd (write_all tx cs fx)) = trace fx @ events_since fx (snd (write_all tx cs fx))
     \<and> one_at_a_time (events_since fx (snd (write_all tx cs fx)))
     \<and> calls_since fx (snd (write_all tx cs fx)) = take n cs
     \<and> map fst (completed (events_since fx (snd (write_all tx cs fx)))) = take n cs
     \<and> (fst (write_all tx cs fx) = None \<longrightarrow> n = length cs)"
proof -
  let ?as = "attempts tx cs (world fx)"
  have ev: "events_since fx (snd (write_all tx cs fx)) = events_of ?as"
    by (simp add: events_since_def write_all_trace)
  have 1: "length ?as \<le> length cs" by (rule length_attempts)
  have 2: "trace (snd (write_all tx cs fx)) = trace fx @ events_since fx (snd (write_all tx cs fx))"
    by (simp add: ev write_all_trace)
  have 3: "one_at_a_time (events_since fx (snd (write_all tx cs fx)))"
    by (simp add: ev one_at_a_time_events_of)
  have 4: "calls_since fx (snd (write_all tx cs fx)) = take (length ?as) cs"
    by (simp add: calls_since_def ev begun_events_of attempts_prefix [symmetric])
  have 5: "map fst (completed (events_since fx (snd (write_all tx cs fx)))) = take (length ?as) cs"
    by (simp add: ev completed_events_of attempts_prefix [symmetric])
  have 6: "fst (write_all tx cs fx) = None \<longrightarrow> length ?as = length cs"
    by (auto dest: write_all_None)
  from 1 2 3 4 5 6 show ?thesis
    by (rule_tac x = "length ?as" in exI) simp
qed


lemma printBluetoothDirect_seen:
  "\<exists>n. n \<le> length (receipt_cmds ext st isTest)
     \<and> trace (printBluetoothDirect ext st isTest fx) =
         trace fx @ events_since fx (printBluetoothDirect ext st isTest fx)
     \<and> one_at_a_time (events_since fx (printBluetoothDirect ext st isTest fx))
     \<and> calls_since fx (printBluetoothDirect ext st isTest fx) = take n (receipt_cmds ext st isTest)
     \<and> map fst (completed (events_since fx (printBluetoothDirect ext st isTest fx))) =
         take n (receipt_cmds ext st isTest)
     \<and> (alerts (printBluetoothDirect ext st isTest fx) = alerts fx \<longrightarrow>
           n = length (receipt_cmds ext st isTest))"
proof (cases "characteristic (bt st)")
  case None
  then show ?thesis
    by (rule_tac x = 0 in exI)
       (simp add: printBluetoothDirect_def events_since_def calls_since_def)
next
  case (Some char)
  let ?cs = "receipt_cmds ext st isTest"
  let ?as = "attempts (transport ext char) ?cs (world fx)"
  let ?fx' = "printBluetoothDirect ext st isTest fx"
  have ev: "events_since fx ?fx' = events_of ?as"
    by (simp add: events_since_def printBluetoothDirect_trace [OF Some])
  have 1: "length ?as \<le> length ?cs" by (rule length_attempts)
  have 2: "trace ?fx' = trace fx @ events_since fx ?fx'"
    by (simp add: ev printBluetoothDirect_trace [OF Some])
  have 3: "one_at_a_time (events_since fx ?fx')"
    by (simp add: ev one_at_a_time_events_of)
  have 4: "calls_since fx ?fx' = take (length ?as) ?cs"
    by (simp add: calls_since_def ev begun_events_of attempts_prefix [symmetric])
  have 5: "map fst (completed (events_since fx ?fx')) = take (length ?as) ?cs"
    by (simp add: ev completed_events_of attempts_prefix [symmetric])
  have 6: "alerts ?fx' = alerts fx \<longrightarrow> length ?as = length ?cs"
  proof
    assume same: "alerts ?fx' = alerts fx"
    have "fst (write_all (transport ext char) ?cs fx) = None"
      using same by (simp add: printBluetoothDirect_alerts [OF Some] split: option.splits)
    then show "length ?as = length ?cs"
      by (auto dest: write_all_None)
  qed
  from 1 2 3 4 5 6 show ?thesis
    by (rule_tac x = "length ?as" in exI) simp
qed

lemmas run_simps =
  printBluetoothDirect_def print_job_send_sequence send_sequence_write_all
  receipt_cmds_def header_cmds_def customer_cmds_def item_cmds_def total_cmds_def
  footer_cmds_def feed_cmds_def write_all_Cons write_all_Nil
  getSeparator_def formatDateForDisplay_def destructured_def
  calls_since_def events_since_def numeral_eq_Suc

lemmas example_simps =
  example_state_def DEFAULT_PRINTER_SETTINGS_def example_ext_def example_transport_def
  example_toFixed2_def idle_def

lemma printBluetoothDirect_completes:
  assumes connected: "characteristic (bt st) = Some char"
    and finished: "fst (print_job ext char st isTest fx) = None"
  shows "calls_since fx (printBluetoothDirect ext st isTest fx) = receipt_cmds ext st isTest"
    and "one_at_a_time (events_since fx (printBluetoothDirect ext st isTest fx))"
    and "alerts (printBluetoothDirect ext st isTest fx) = alerts fx"
proof -
  let ?cs = "receipt_cmds ext st isTest"
  let ?tx = "transport ext char"
  let ?fx' = "printBluetoothDirect ext st isTest fx"
  have ok: "fst (write_all ?tx ?cs fx) = None"
    using finished by (simp add: print_job_send_sequence send_sequence_write_all)
  have as: "attempts ?tx ?cs (world fx) = map (\<lambda>c. (c, None)) ?cs"
    by (rule write_all_None [OF ok])
  have ev: "events_since fx ?fx' = events_of (map (\<lambda>c. (c, None)) ?cs)"
    by (simp add: events_since_def printBluetoothDirect_trace [OF connected] as)
  show "calls_since fx ?fx' = ?cs"
    by (simp add: calls_since_def ev begun_events_of comp_def)
  show "one_at_a_time (events_since fx ?fx')"
    by (simp add: ev one_at_a_time_events_of)
  show "alerts ?fx' = alerts fx"
    using ok by (simp add: printBluetoothDirect_alerts [OF connected])
qed

lemma later_in_list:
  assumes "l = ys @ y # rest" and "x \<notin> set rest" and "x \<noteq> y" and "l = pre @ x # post"
  shows "y \<in> set post"
proof -
  from assms(1,4) have "ys @ y # rest = pre @ x # post" by simp
  then consider us where "ys = pre @ us" "us @ y # rest = x # post"
    | us where "ys @ us = pre" "y # rest = us @ x # post"
    by (auto simp: append_eq_append_conv2)
  then show ?thesis
  proof cases
    case 1
    then show ?thesis using assms(3) by (cases us) auto
  next
    case 2
    then show ?thesis using assms(2,3) by (cases us) auto
  qed
qed

lemma formatting_after_feeds:
  "formatting_after f (replicate n ESC_FEED) = f"
  by (induction n) (simp_all add: formatting_after_def)

lemma formatting_after_append:
  "formatting_after f (xs @ ys) = formatting_after (formatting_after f xs) ys"
  by (simp add: formatting_after_def)

lemma receipt_ends_bold_off:
  "receipt_cmds ext st isTest =
     (header_cmds ext st @ customer_cmds ext st isTest @ item_cmds ext st isTest
        @ butlast (total_cmds ext st isTest))
     @ ESC_BOLD_OFF # (footer_cmds st @ feed_cmds st)"
  by (simp add: receipt_cmds_def total_cmds_def)

lemma receipt_ends_font_normal:
  "receipt_cmds ext st isTest =
     (header_cmds ext st @ customer_cmds ext st isTest @ item_cmds ext st isTest
        @ butlast (butlast (total_cmds ext st isTest)))
     @ FONT_SIZE_NORMAL # (ESC_BOLD_OFF # footer_cmds st @ feed_cmds st)"
  by (simp add: receipt_cmds_def total_cmds_def)

lemma formatting_after_texts:
  "formatting_after g (concat (map (\<lambda>x. [Text (f x), Text (h x)]) xs)) = g"
  by (induction xs) (simp_all add: formatting_after_def)

lemma receipt_formatting:
  "formatting_after f (receipt_cmds ext st isTest) = \<lparr>bold = False, glyphSize = SizeNormal\<rparr>"
proof -
  have "formatting_after f (header_cmds ext st) = \<lparr>bold = False, glyphSize = SizeNormal\<rparr>"
    by (simp add: header_cmds_def formatting_after_def)
  moreover have "formatting_after g (customer_cmds ext st isTest) = g" for g
    by (simp add: customer_cmds_def formatting_after_def)
  moreover have "formatting_after g (item_cmds ext st isTest) = g" for g
    using formatting_after_texts
      [of g CartItem.name "\<lambda>item. ''RM '' @ toFixed2 ext (price item)" "cart st"]
    by (simp add: item_cmds_def formatting_after_def)
  moreover have "formatting_after g (total_cmds ext st isTest) = \<lparr>bold = False, glyphSize = SizeNormal\<rparr>" for g
    by (simp add: total_cmds_def formatting_after_def)
  moreover have "formatting_after g (footer_cmds st) = g" for g
    by (simp add: footer_cmds_def formatting_after_def)
  ultimately show ?thesis
    by (simp add: receipt_cmds_def formatting_after_append formatting_after_feeds feed_cmds_def)
qed

lemma receipt_header:
  "takeWhile (\<lambda>c. c \<noteq> Text ''Peguam Syarie & PJS'') (receipt_cmds ext st isTest) =
     [ESC_INIT, ESC_ALIGN_CENTER]
     @ (if boldHeaders (printerSettings st) then [ESC_BOLD_ON] else [])
     @ [FONT_SIZE_LARGE, Text ''HAIRI MUSTAFA ASSOCIATES'', FONT_SIZE_NORMAL]
     @ (if boldHeaders (printerSettings st) then [ESC_BOLD_OFF] else [])"
  by (simp add: receipt_cmds_def header_cmds_def)


lemma getSeparator_starts_with_dash:
  "\<exists>rest. getSeparator eol profile = CHR ''-'' # rest"
  by (cases profile) (simp_all add: getSeparator_def numeral_eq_Suc)

lemma test_receipt:
  "receipt_cmds ext st True =
     header_cmds ext st
     @ [ESC_ALIGN_LEFT,
        Text (''Tarikh: '' @ formatDateForDisplay (date (clientForm st))),
        Text ''Nama: TEST PRINT'',
        Text (getSeparator (lineTerminator ext) (paperWidth (printerSettings st))),
        Text ''TEST SERVICE'',
        Text ''RM 10.00'',
        Text (getSeparator (lineTerminator ext) (paperWidth (printerSettings st))),
        ESC_ALIGN_CENTER, ESC_BOLD_ON, FONT_SIZE_DOUBLE_HEIGHT,
        Text ''JUMLAH: RM 10.00'',
        FONT_SIZE_NORMAL, ESC_BOLD_OFF,
        Text (if footerText (printerSettings st) = [] then ''Terima Kasih''
              else footerText (printerSettings st))]
     @ replicate (nat (extraFeeds (printerSettings st))) ESC_FEED"
  by (simp add: receipt_cmds_def customer_cmds_def item_cmds_def total_cmds_def
      footer_cmds_def feed_cmds_def)

lemma test_receipt_independent:
  "receipt_cmds ext
     (st\<lparr>cart := c, total' := t,
         clientForm := (clientForm st)\<lparr>phone := p, address := a\<rparr>,
         printerSettings := (printerSettings st)\<lparr>includePhone := ip, includeAddress := ia\<rparr>\<rparr>)
     True =
   receipt_cmds ext st True"
  by (simp add: test_receipt header_cmds_def)

lemma test_receipt_tel_lines:
  assumes "Text s \<in> set (receipt_cmds ext st True)"
    and "take 5 s = ''Tel: '' \<or> take 8 s = ''Alamat: ''"
  shows "s = footerText (printerSettings st)"
proof -
  obtain rest where sep: "getSeparator (lineTerminator ext) (paperWidth (printerSettings st)) = CHR ''-'' # rest"
    using getSeparator_starts_with_dash by blast
  show ?thesis
    using assms
    by (auto simp: test_receipt header_cmds_def sep split: if_splits)
qed


lemma write_all_completes:
  assumes "fst (write_all tx cs fx) = None"
  shows "calls_since fx (snd (write_all tx cs fx)) = cs"
    and "one_at_a_time (events_since fx (snd (write_all tx cs fx)))"
proof -
  have as: "attempts tx cs (world fx) = map (\<lambda>c. (c, None)) cs"
    by (rule write_all_None [OF assms])
  have ev: "events_since fx (snd (write_all tx cs fx)) = events_of (map (\<lambda>c. (c, None)) cs)"
    by (simp add: events_since_def write_all_trace as)
  show "calls_since fx (snd (write_all tx cs fx)) = cs"
    by (simp add: calls_since_def ev begun_events_of comp_def)
  show "one_at_a_time (events_since fx (snd (write_all tx cs fx)))"
    by (simp add: ev one_at_a_time_events_of)
qed

subsection \<open>Chunks\<close>

declare chunks.simps [simp del]

lemma concat_chunks: "concat (chunks L buffer) = buffer"
proof (induction L buffer rule: chunks.induct)
  case (1 L buffer)
  show ?case
  proof (cases "L = 0 \<or> length buffer \<le> L")
    case True
    then show ?thesis by (subst chunks.simps) simp
  next
    case False
    then show ?thesis using 1 by (subst chunks.simps) simp
  qed
qed

lemma chunks_within_limit:
  assumes "0 < L"
  shows "\<forall>c \<in> set (chunks L buffer). length c \<le> L"
  using assms
proof (induction L buffer rule: chunks.induct)
  case (1 L buffer)
  show ?case
  proof (cases "length buffer \<le> L")
    case True
    then show ?thesis by (subst chunks.simps) simp
  next
    case False
    then show ?thesis using 1 by (subst chunks.simps) simp
  qed
qed

lemma length_chunks:
  assumes "0 < L" and "buffer \<noteq> []"
  shows "length (chunks L buffer) = (length buffer + L - 1) div L"
  using assms
proof (induction L buffer rule: chunks.induct)
  case (1 L buffer)
  show ?case
  proof (cases "length buffer \<le> L")
    case True
    then have "(length buffer + L - 1) div L = 1"
      using 1(2,3) by (cases buffer) (simp_all add: div_eq_dividend_iff le_div_geq)
    then show ?thesis using True by (subst chunks.simps) simp
  next
    case False
    then have "drop L buffer \<noteq> []" by simp
    then have ih: "length (chunks L (drop L buffer)) = (length (drop L buffer) + L - 1) div L"
      using 1 False by simp
    have "(length buffer + L - 1) div L = Suc ((length buffer - L + L - 1) div L)"
      using False 1(2) by (simp add: le_div_geq)
    then show ?thesis using False ih by (subst chunks.simps) simp
  qed
qed

lemma ceiling_div_nat:
  assumes "0 < L"
  shows "\<lceil>real n / real L\<rceil> = int ((n + L - 1) div L)"
proof -
  define q where "q = n div L"
  define r where "r = n mod L"
  have n: "n = L * q + r" by (simp add: q_def r_def)
  have r: "r < L" using assms by (simp add: r_def)
  have s1: "L * Suc q = L * q + L" and s2: "L * Suc (Suc q) = L * q + L + L" by simp_all
  show ?thesis
  proof (cases "r = 0")
    case True
    have "(n + L - 1) div L = q"
    proof (rule div_nat_eqI)
      show "L * q \<le> n + L - 1" using n True assms by linarith
      show "n + L - 1 < L * Suc q" unfolding s1 using n True assms by linarith
    qed
    moreover have "real n / real L = real q"
    proof -
      have "real n = real L * real q" using n True by simp
      then show ?thesis using assms by simp
    qed
    ultimately show ?thesis by simp
  next
    case False
    have lo: "L * q < n" using n False by linarith
    have hi: "n \<le> L * Suc q" unfolding s1 using n r by linarith
    have "(n + L - 1) div L = Suc q"
    proof (rule div_nat_eqI)
      show "L * Suc q \<le> n + L - 1" unfolding s1 using lo assms by linarith
      show "n + L - 1 < L * Suc (Suc q)" unfolding s2 using n r assms by linarith
    qed
    moreover have "\<lceil>real n / real L\<rceil> = int (Suc q)"
    proof (rule ceiling_unique)
      have "real (L * q) < real n" using lo by (simp only: of_nat_less_iff)
      then have "real q * real L < real n" by (simp add: mult.commute)
      then show "of_int (int (Suc q)) - 1 < real n / real L"
        using assms by (simp add: pos_less_divide_eq)
      have "real n \<le> real (L * Suc q)" using hi by (simp only: of_nat_le_iff)
      then have "real n \<le> real (Suc q) * real L" by (simp add: algebra_simps)
      then show "real n / real L \<le> of_int (int (Suc q))"
        using assms by (simp add: pos_divide_le_eq)
    qed
    ultimately show ?thesis by simp
  qed
qed


section \<open>The claims\<close>

subsection \<open>C1\<close>

text \<open>
  C1. The transport writer keeps the caller's sequence. For every list of buffers handed to
  \<open>send_sequence\<close>, and for the buffers that \<^verbatim>\<open>printBluetoothDirect\<close> hands over in program
  order (\<open>receipt_cmds\<close>): the writes begun are an initial part \<open>take n\<close> of the sequence,
  each buffer once and in the caller's order, so none is reordered, merged with another or
  left out before the point where the run ends; every write that began completed before
  the next one began (\<open>one_at_a_time\<close>); and when no write fails (no alert is shown), all
  of the sequence is written.
\<close>

theorem C1_commands_written_in_order:
  "(\<exists>n. n \<le> length cmds
      \<and> trace (snd (send_sequence ext char cmds fx)) =
          trace fx @ events_since fx (snd (send_sequence ext char cmds fx))
      \<and> one_at_a_time (events_since fx (snd (send_sequence ext char cmds fx)))
      \<and> calls_since fx (snd (send_sequence ext char cmds fx)) = take n cmds
      \<and> map fst (completed (events_since fx (snd (send_sequence ext char cmds fx)))) = take n cmds
      \<and> (fst (send_sequence ext char cmds fx) = None \<longrightarrow> n = length cmds))
   \<and> (\<exists>n. n \<le> length (receipt_cmds ext st isTest)
      \<and> trace (printBluetoothDirect ext st isTest fx) =
          trace fx @ events_since fx (printBluetoothDirect ext st isTest fx)
      \<and> one_at_a_time (events_since fx (printBluetoothDirect ext st isTest fx))
      \<and> calls_since fx (printBluetoothDirect ext st isTest fx) =
          take n (receipt_cmds ext st isTest)
      \<and> map fst (completed (events_since fx (printBluetoothDirect ext st isTest fx))) =
          take n (receipt_cmds ext st isTest)
      \<and> (alerts (printBluetoothDirect ext st isTest fx) = alerts fx \<longrightarrow>
            n = length (receipt_cmds ext st isTest)))"
  using write_all_seen [of cmds "transport ext char" fx]
    printBluetoothDirect_seen [of ext st isTest fx]
  by (simp only: send_sequence_write_all)

theorem C1_commands_written_in_order_witness:
  "alerts (printBluetoothDirect (example_ext None) example_state False idle) = alerts idle
   \<and> one_at_a_time (events_since idle (printBluetoothDirect (example_ext None) example_state False idle))
   \<and> calls_since idle (printBluetoothDirect (example_ext None) example_state False idle) =
       receipt_cmds (example_ext None) example_state False
   \<and> length (receipt_cmds (example_ext None) example_state False) = 31
   \<and> fst (send_sequence (example_ext None) () [ESC_INIT, Text ''A'', ESC_FEED] idle) = None
   \<and> calls_since idle (snd (send_sequence (example_ext None) () [ESC_INIT, Text ''A'', ESC_FEED] idle)) =
       [ESC_INIT, Text ''A'', ESC_FEED]"
proof -
  let ?fx' = "printBluetoothDirect (example_ext None) example_state False idle"
  let ?cs = "receipt_cmds (example_ext None) example_state False"
  let ?ds = "[ESC_INIT, Text ''A'', ESC_FEED]"
  let ?r = "send_sequence (example_ext None) () ?ds idle"
  have quiet: "alerts ?fx' = alerts idle"
    by (simp add: run_simps example_simps)
  have sent: "fst ?r = None"
    by (simp add: run_simps example_simps)
  have len: "length ?cs = 31"
    by (simp add: run_simps example_simps)
  from C1_commands_written_in_order [of ?ds "example_ext None" "()" idle example_state False]
  obtain m n where
    m: "calls_since idle (snd ?r) = take m ?ds" "fst ?r = None \<longrightarrow> m = length ?ds"
    and n: "one_at_a_time (events_since idle ?fx')" "calls_since idle ?fx' = take n ?cs"
      "alerts ?fx' = alerts idle \<longrightarrow> n = length ?cs"
    by (elim conjE exE) (rule that, assumption+)
  from m sent have "calls_since idle (snd ?r) = ?ds" by simp
  moreover from n quiet have "calls_since idle ?fx' = ?cs" by simp
  ultimately show ?thesis using quiet sent len n(1) by simp
qed

subsection \<open>C2\<close>

text \<open>
  C2. For every buffer longer than the chunk limit \<open>L\<close> (a positive limit), \<^verbatim>\<open>send\<close> splits the
  buffer into exactly \<open>\<lceil>len / L\<rceil>\<close> chunks, each at most \<open>L\<close> bytes long, whose concatenation
  in transmission order is the buffer; the chunk writes are sequential: they begin in
  that order, one at a time, and when no chunk write is rejected all of them are made.
\<close>

theorem C2_send_splits_into_chunks:
  assumes "0 < L" and "L < length buffer"
  shows "int (length (chunks L buffer)) = \<lceil>real (length buffer) / real L\<rceil>
       \<and> (\<forall>c \<in> set (chunks L buffer). length c \<le> L)
       \<and> concat (chunks L buffer) = buffer
       \<and> (\<exists>n. n \<le> length (chunks L buffer)
            \<and> one_at_a_time (events_since fx (snd (send L writeValue buffer fx)))
            \<and> calls_since fx (snd (send L writeValue buffer fx)) = take n (chunks L buffer)
            \<and> (fst (send L writeValue buffer fx) = None \<longrightarrow> n = length (chunks L buffer)))"
proof -
  have "buffer \<noteq> []" using assms(2) by auto
  then have 1: "int (length (chunks L buffer)) = \<lceil>real (length buffer) / real L\<rceil>"
    using assms(1) by (simp add: length_chunks ceiling_div_nat)
  have 2: "\<forall>c \<in> set (chunks L buffer). length c \<le> L"
    by (rule chunks_within_limit [OF assms(1)])
  have 3: "concat (chunks L buffer) = buffer"
    by (rule concat_chunks)
  from write_all_seen [of "chunks L buffer" writeValue fx]
  obtain n where n: "n \<le> length (chunks L buffer)"
      "one_at_a_time (events_since fx (snd (write_all writeValue (chunks L buffer) fx)))"
      "calls_since fx (snd (write_all writeValue (chunks L buffer) fx)) = take n (chunks L buffer)"
      "fst (write_all writeValue (chunks L buffer) fx) = None \<longrightarrow> n = length (chunks L buffer)"
    by (elim conjE exE) (rule that, assumption+)
  have 4: "\<exists>n. n \<le> length (chunks L buffer)
            \<and> one_at_a_time (events_since fx (snd (send L writeValue buffer fx)))
            \<and> calls_since fx (snd (send L writeValue buffer fx)) = take n (chunks L buffer)
            \<and> (fst (send L writeValue buffer fx) = None \<longrightarrow> n = length (chunks L buffer))"
    unfolding send_def using n by (intro exI [of _ n] conjI)
  from 1 2 3 4 show ?thesis by (intro conjI)
qed

theorem C2_send_splits_into_chunks_witness:
  "(0::nat) < 2 \<and> 2 < length [1, 2, 3, 4, 5 :: byte]
   \<and> chunks 2 [1, 2, 3, 4, 5 :: byte] = [[1, 2], [3, 4], [5]]
   \<and> \<lceil>real (length [1, 2, 3, 4, 5 :: byte]) / real (2::nat)\<rceil> = 3
   \<and> fst (send 2 counting_writeValue [1, 2, 3, 4, 5] fresh) = None
   \<and> calls_since fresh (snd (send 2 counting_writeValue [1, 2, 3, 4, 5] fresh)) =
       [[1, 2], [3, 4], [5]]"
proof -
  let ?b = "[1, 2, 3, 4, 5 :: byte]"
  let ?r = "send 2 counting_writeValue ?b fresh"
  have h1: "(0::nat) < 2" by simp
  have h2: "2 < length ?b" by simp
  have c: "chunks 2 ?b = [[1, 2], [3, 4], [5]]"
    by (simp add: chunks.simps)
  have ok: "fst ?r = None"
    by (simp add: send_def c write_all_Cons write_all_Nil counting_writeValue_def)
  note t = C2_send_splits_into_chunks [OF h1 h2, of fresh counting_writeValue]
  from t have len: "\<lceil>real (length ?b) / real (2::nat)\<rceil> = 3"
    by (simp add: c)
  from t obtain n where "calls_since fresh (snd ?r) = take n (chunks 2 ?b)"
      "fst ?r = None \<longrightarrow> n = length (chunks 2 ?b)"
    by (elim conjE exE) (rule that, assumption+)
  with ok have "calls_since fresh (snd ?r) = chunks 2 ?b" by simp
  with h1 h2 c len ok show ?thesis by simp
qed

subsection \<open>C3\<close>

text \<open>
  C3, as stated, asks for a failure that identifies the index of the failed buffer. The
  code reports a failed write through the \<^verbatim>\<open>catch\<close> of line 388, an alert that carries the
  thrown value only. A link that rejects the first write and a link that rejects the second
  one leave the caller with the same alert and the same flag, although different buffers
  were written.
\<close>

theorem C3_failure_report_has_no_index_counterexample:
  "alerts (printBluetoothDirect (example_ext (Some 0)) example_state False idle) =
     [''Ralat cetakan Bluetooth: NetworkError: GATT operation failed'']
   \<and> alerts (printBluetoothDirect (example_ext (Some 1)) example_state False idle) =
     [''Ralat cetakan Bluetooth: NetworkError: GATT operation failed'']
   \<and> isPrintConfirmOpen (printBluetoothDirect (example_ext (Some 0)) example_state False idle) =
     isPrintConfirmOpen (printBluetoothDirect (example_ext (Some 1)) example_state False idle)
   \<and> calls_since idle (printBluetoothDirect (example_ext (Some 0)) example_state False idle) =
     [ESC_INIT]
   \<and> calls_since idle (printBluetoothDirect (example_ext (Some 1)) example_state False idle) =
     [ESC_INIT, ESC_ALIGN_CENTER]"
  by (simp add: run_simps example_simps)

text \<open>
  C3, amended. When the transport fails on the buffer at index \<open>i\<close> of the receipt (the
  buffers before it were written and the write of buffer \<open>i\<close> is rejected with \<open>e\<close>), the
  run writes the buffers before \<open>i\<close>, stops at \<open>i\<close>, shows the alert
  \<^verbatim>\<open>Ralat cetakan Bluetooth: \<close>\<open>e\<close> (the thrown value, not the index) and closes the print
  confirmation. No buffer after \<open>i\<close> is attempted and no buffer is attempted twice: the
  completed writes are the first \<open>i\<close> buffers, each accepted, and then buffer \<open>i\<close>, rejected.
\<close>

theorem C3_stops_at_first_failure:
  assumes connected: "characteristic (bt st) = Some char"
    and i: "i < length (receipt_cmds ext st isTest)"
    and before: "send_sequence ext char (take i (receipt_cmds ext st isTest)) fx = (None, fxi)"
    and fails: "transport ext char (receipt_cmds ext st isTest ! i) (world fxi) = (Some e, w')"
  shows "printBluetoothDirect ext st isTest fx =
           fxi\<lparr>world := w',
               trace := trace fxi @ [Begun (receipt_cmds ext st isTest ! i),
                                     Completed (receipt_cmds ext st isTest ! i) (Some e)],
               alerts := alerts fxi @ [''Ralat cetakan Bluetooth: '' @ e],
               isPrintConfirmOpen := False\<rparr>
       \<and> alerts (printBluetoothDirect ext st isTest fx) =
           alerts fx @ [''Ralat cetakan Bluetooth: '' @ e]
       \<and> one_at_a_time (events_since fx (printBluetoothDirect ext st isTest fx))
       \<and> calls_since fx (printBluetoothDirect ext st isTest fx) =
           take (Suc i) (receipt_cmds ext st isTest)
       \<and> completed (events_since fx (printBluetoothDirect ext st isTest fx)) =
           map (\<lambda>c. (c, None)) (take i (receipt_cmds ext st isTest))
           @ [(receipt_cmds ext st isTest ! i, Some e)]"
proof -
  let ?cs = "receipt_cmds ext st isTest"
  let ?tx = "transport ext char"
  let ?fx' = "printBluetoothDirect ext st isTest fx"
  have before': "write_all ?tx (take i ?cs) fx = (None, fxi)"
    using before by (simp add: send_sequence_write_all)
  have run: "write_all ?tx ?cs fx =
      (Some e, fxi\<lparr>world := w', trace := trace fxi @ [Begun (?cs ! i), Completed (?cs ! i) (Some e)]\<rparr>)"
    by (rule write_all_fails_at [OF i before' fails])
  have result: "?fx' =
      fxi\<lparr>world := w', trace := trace fxi @ [Begun (?cs ! i), Completed (?cs ! i) (Some e)],
          alerts := alerts fxi @ [''Ralat cetakan Bluetooth: '' @ e],
          isPrintConfirmOpen := False\<rparr>"
    by (simp add: printBluetoothDirect_connected [OF connected] run)
  have frame: "alerts fxi = alerts fx"
    using write_all_frame [of ?tx "take i ?cs" fx] before' by simp
  have "attempts ?tx (take i ?cs) (world fx) = map (\<lambda>c. (c, None)) (take i ?cs)"
    using write_all_None [of ?tx "take i ?cs" fx] before' by simp
  then have prefix: "trace fxi = trace fx @ events_of (map (\<lambda>c. (c, None)) (take i ?cs))"
    using write_all_trace [of ?tx "take i ?cs" fx] before' by simp
  have ev: "events_since fx ?fx' =
      events_of (map (\<lambda>c. (c, None)) (take i ?cs)) @ [Begun (?cs ! i), Completed (?cs ! i) (Some e)]"
    by (simp add: events_since_def result prefix)
  have 1: "alerts ?fx' = alerts fx @ [''Ralat cetakan Bluetooth: '' @ e]"
    by (simp add: result frame)
  have 2: "one_at_a_time (events_since fx ?fx')"
    by (simp add: ev one_at_a_time_append one_at_a_time_events_of)
  have 3: "calls_since fx ?fx' = take (Suc i) ?cs"
    using i by (simp add: calls_since_def ev begun_append begun_events_of comp_def
        take_Suc_conv_app_nth)
  have 4: "completed (events_since fx ?fx') =
      map (\<lambda>c. (c, None)) (take i ?cs) @ [(?cs ! i, Some e)]"
    by (simp add: ev completed_append completed_events_of)
  from result 1 2 3 4 show ?thesis by simp
qed

theorem C3_stops_at_first_failure_witness:
  "characteristic (bt example_state) = Some ()
   \<and> 3 < length (receipt_cmds (example_ext (Some 3)) example_state False)
   \<and> send_sequence (example_ext (Some 3)) ()
         (take 3 (receipt_cmds (example_ext (Some 3)) example_state False)) idle =
       (None, \<lparr>world = 3,
               trace = [Begun ESC_INIT, Completed ESC_INIT None,
                        Begun ESC_ALIGN_CENTER, Completed ESC_ALIGN_CENTER None,
                        Begun ESC_BOLD_ON, Completed ESC_BOLD_ON None],
               alerts = [], isPrintConfirmOpen = True\<rparr>)
   \<and> transport (example_ext (Some 3)) ()
         (receipt_cmds (example_ext (Some 3)) example_state False ! 3) 3 =
       (Some ''NetworkError: GATT operation failed'', 4)
   \<and> alerts (printBluetoothDirect (example_ext (Some 3)) example_state False idle) =
       [''Ralat cetakan Bluetooth: NetworkError: GATT operation failed'']
   \<and> calls_since idle (printBluetoothDirect (example_ext (Some 3)) example_state False idle) =
       [ESC_INIT, ESC_ALIGN_CENTER, ESC_BOLD_ON, FONT_SIZE_LARGE]
   \<and> completed (events_since idle
         (printBluetoothDirect (example_ext (Some 3)) example_state False idle)) =
       [(ESC_INIT, None), (ESC_ALIGN_CENTER, None), (ESC_BOLD_ON, None),
        (FONT_SIZE_LARGE, Some ''NetworkError: GATT operation failed'')]"
proof -
  let ?ext = "example_ext (Some 3)"
  let ?cs = "receipt_cmds ?ext example_state False"
  let ?fxi = "\<lparr>world = 3::nat,
               trace = [Begun ESC_INIT, Completed ESC_INIT None,
                        Begun ESC_ALIGN_CENTER, Completed ESC_ALIGN_CENTER None,
                        Begun ESC_BOLD_ON, Completed ESC_BOLD_ON None],
               alerts = [], isPrintConfirmOpen = True\<rparr>"
  have h1: "characteristic (bt example_state) = Some ()"
    by (simp add: example_simps)
  have h2: "3 < length ?cs"
    by (simp add: run_simps example_simps)
  have h3: "send_sequence ?ext () (take 3 ?cs) idle = (None, ?fxi)"
    by (simp add: run_simps example_simps)
  have h4: "transport ?ext () (?cs ! 3) (world ?fxi) =
      (Some ''NetworkError: GATT operation failed'', 4)"
    by (simp add: run_simps example_simps)
  have cs: "take 4 ?cs = [ESC_INIT, ESC_ALIGN_CENTER, ESC_BOLD_ON, FONT_SIZE_LARGE]"
    "take 3 ?cs = [ESC_INIT, ESC_ALIGN_CENTER, ESC_BOLD_ON]" "?cs ! 3 = FONT_SIZE_LARGE"
    by (simp_all add: run_simps example_simps)
  show ?thesis
    using h1 h2 h3 h4 cs C3_stops_at_first_failure [OF h1 h2 h3 h4]
    by (simp add: idle_def calls_since_def events_since_def)
qed

subsection \<open>C4\<close>

text \<open>
  C4. For both profiles, \<^verbatim>\<open>separator(profile)\<close> is a line of exactly \<open>width profile\<close> dashes
  followed by the device's line terminator, where the width is 32 for the Narrow (58mm)
  profile and 48 for the Wide (80mm) profile.
\<close>

theorem C4_separator_width:
  "take (width profile) (getSeparator eol profile) = replicate (width profile) (CHR ''-'')
   \<and> drop (width profile) (getSeparator eol profile) = eol
   \<and> length (getSeparator eol profile) = width profile + length eol
   \<and> width Narrow = 32 \<and> width Wide = 48
   \<and> getSeparator eol Narrow = replicate 32 (CHR ''-'') @ eol
   \<and> getSeparator eol Wide = replicate 48 (CHR ''-'') @ eol"
  by (simp add: getSeparator_def)

subsection \<open>C5\<close>

text \<open>
  C5 is about the byte literals \<^verbatim>\<open>ESC_INIT\<close>, ..., \<^verbatim>\<open>ESC_FEED\<close> themselves. They are declared
  in \<^verbatim>\<open>utils/bluetoothUtils\<close>; lines 6-11 import them, and neither the sources nor the spec
  give a byte of any of them. No theorem is stated for it.
\<close>

subsection \<open>C6\<close>

text \<open>
  C6. For every string, the encoding of \<^verbatim>\<open>Text(s)\<close> has one byte per character: the
  character's own code point where it is representable in a single byte, and the fallback
  byte \<^verbatim>\<open>?\<close> where it is not. The encoder is a total function that returns a buffer for
  every string: there is no error for it to raise or to pass on.
\<close>

theorem C6_text_encoding_substitutes:
  "length (textToBytes s) = length s
   \<and> (\<forall>i < length s.
        (representable (s ! i) \<longrightarrow> unat (textToBytes s ! i) = s ! i)
        \<and> (\<not> representable (s ! i) \<longrightarrow> textToBytes s ! i = fallback_byte))
   \<and> unat fallback_byte = of_char (CHR ''?'')"
  by (simp add: textToBytes_def representable_def fallback_byte_def unat_of_nat)

theorem C6_text_encoding_substitutes_witness:
  "representable 72 \<and> \<not> representable 8364
   \<and> textToBytes [72, 233, 8364, 105] = [0x48, 0xE9, 0x3F, 0x69]
   \<and> unat (textToBytes [72, 233, 8364, 105] ! 0) = 72
   \<and> textToBytes [72, 233, 8364, 105] ! 2 = fallback_byte"
proof -
  let ?s = "[72, 233, 8364, 105 :: nat]"
  note t = C6_text_encoding_substitutes [of ?s]
  have r: "representable 72" "\<not> representable 8364"
    by (simp_all add: representable_def)
  from t have "representable (?s ! 0) \<longrightarrow> unat (textToBytes ?s ! 0) = ?s ! 0"
    by simp
  with r have a: "unat (textToBytes ?s ! 0) = 72" by simp
  from t have "\<not> representable (?s ! 2) \<longrightarrow> textToBytes ?s ! 2 = fallback_byte"
    by simp
  with r have b: "textToBytes ?s ! 2 = fallback_byte" by simp
  have c: "textToBytes ?s = [0x48, 0xE9, 0x3F, 0x69]"
    by (simp add: textToBytes_def representable_def fallback_byte_def)
  from r a b c show ?thesis by simp
qed

subsection \<open>C7\<close>

text \<open>
  C7. When the link is not connected (\<^verbatim>\<open>bt.characteristic\<close> is \<^verbatim>\<open>null\<close>), the call fails at
  once: the guard of line 342 reports the missing connection (the alert
  \<^verbatim>\<open>Sila sambung Bluetooth dahulu\<close>) and returns. Nothing else changes: no write is begun, so
  zero bytes reach the transport, and the state of the link is untouched.
\<close>

theorem C7_not_connected_writes_nothing:
  assumes "characteristic (bt st) = None"
  shows "printBluetoothDirect ext st isTest fx =
           fx\<lparr>alerts := alerts fx @ [''Sila sambung Bluetooth dahulu'']\<rparr>
       \<and> trace (printBluetoothDirect ext st isTest fx) = trace fx
       \<and> world (printBluetoothDirect ext st isTest fx) = world fx
       \<and> calls_since fx (printBluetoothDirect ext st isTest fx) = []"
  using assms by (simp add: printBluetoothDirect_def calls_since_def events_since_def)

theorem C7_not_connected_witness:
  "characteristic (bt disconnected_state) = None
   \<and> printBluetoothDirect (example_ext None) disconnected_state False idle =
       \<lparr>world = 0, trace = [], alerts = [''Sila sambung Bluetooth dahulu''],
        isPrintConfirmOpen = True\<rparr>
   \<and> calls_since idle (printBluetoothDirect (example_ext None) disconnected_state False idle) = []"
proof -
  have h: "characteristic (bt disconnected_state) = None"
    by (simp add: disconnected_state_def)
  show ?thesis
    using h C7_not_connected_writes_nothing [OF h, of "example_ext None" False idle]
    by (simp add: idle_def calls_since_def events_since_def)
qed

subsection \<open>C8\<close>

text \<open>
  C8. For every print job that completes, the buffers handed to the transport are the
  header, then the customer block, then the line items, then the total, then the footer,
  then the feeds, each handed over one at a time with its write completed before the next
  begins. The scenario: the four buffers \<^verbatim>\<open>[Init, AlignCenter, Text("HELLO"), Feed]\<close>, sent
  through the same sequencing over any link that accepts them (whatever the paper profile:
  none of the four depends on it), are handed over as that 4-element list in that order, the
  text between the init/align controls and the feed. With the spec's encoder the text
  buffer is the five bytes of \<^verbatim>\<open>HELLO\<close>, which decode back to \<^verbatim>\<open>HELLO\<close> and which the limit
  512 leaves as one chunk.
\<close>

theorem C8_receipt_order_and_hello:
  "(characteristic (bt st) = Some char \<and> fst (print_job ext char st isTest fx) = None \<longrightarrow>
      calls_since fx (printBluetoothDirect ext st isTest fx) =
        header_cmds ext st @ customer_cmds ext st isTest @ item_cmds ext st isTest
        @ total_cmds ext st isTest @ footer_cmds st @ feed_cmds st
      \<and> one_at_a_time (events_since fx (printBluetoothDirect ext st isTest fx)))
   \<and> (fst (send_sequence ext char [ESC_INIT, ESC_ALIGN_CENTER, Text ''HELLO'', ESC_FEED] fx) = None \<longrightarrow>
      calls_since fx
        (snd (send_sequence ext char [ESC_INIT, ESC_ALIGN_CENTER, Text ''HELLO'', ESC_FEED] fx)) =
        [ESC_INIT, ESC_ALIGN_CENTER, Text ''HELLO'', ESC_FEED]
      \<and> length (calls_since fx
        (snd (send_sequence ext char [ESC_INIT, ESC_ALIGN_CENTER, Text ''HELLO'', ESC_FEED] fx))) = 4
      \<and> one_at_a_time (events_since fx
        (snd (send_sequence ext char [ESC_INIT, ESC_ALIGN_CENTER, Text ''HELLO'', ESC_FEED] fx))))
   \<and> textToBytes (map of_char ''HELLO'') = [0x48, 0x45, 0x4C, 0x4C, 0x4F]
   \<and> chunks 512 (textToBytes (map of_char ''HELLO'')) = [textToBytes (map of_char ''HELLO'')]
   \<and> map (\<lambda>b. char_of (unat b)) (textToBytes (map of_char ''HELLO'')) = ''HELLO''"
proof -
  let ?hello = "[ESC_INIT, ESC_ALIGN_CENTER, Text ''HELLO'', ESC_FEED]"
  have 1: "characteristic (bt st) = Some char \<and> fst (print_job ext char st isTest fx) = None \<longrightarrow>
      calls_since fx (printBluetoothDirect ext st isTest fx) =
        header_cmds ext st @ customer_cmds ext st isTest @ item_cmds ext st isTest
        @ total_cmds ext st isTest @ footer_cmds st @ feed_cmds st
      \<and> one_at_a_time (events_since fx (printBluetoothDirect ext st isTest fx))"
    using printBluetoothDirect_completes(1,2) [of st char ext isTest fx]
    by (simp add: receipt_cmds_def)
  have 2: "fst (send_sequence ext char ?hello fx) = None \<longrightarrow>
      calls_since fx (snd (send_sequence ext char ?hello fx)) = ?hello
      \<and> length (calls_since fx (snd (send_sequence ext char ?hello fx))) = 4
      \<and> one_at_a_time (events_since fx (snd (send_sequence ext char ?hello fx)))"
    using write_all_completes [of "transport ext char" ?hello fx]
    by (simp add: send_sequence_write_all)
  have 3: "textToBytes (map of_char ''HELLO'') = [0x48, 0x45, 0x4C, 0x4C, 0x4F]"
    by (simp add: textToBytes_def representable_def)
  have 4: "chunks 512 (textToBytes (map of_char ''HELLO'')) = [textToBytes (map of_char ''HELLO'')]"
    by (simp add: chunks.simps textToBytes_def)
  have 5: "map (\<lambda>b. char_of (unat b)) (textToBytes (map of_char ''HELLO'')) = ''HELLO''"
    by (simp add: textToBytes_def representable_def char_of_eq_iff)
  from 1 2 3 4 5 show ?thesis by (intro conjI)
qed

theorem C8_receipt_order_and_hello_witness:
  "characteristic (bt example_state) = Some ()
   \<and> fst (print_job (example_ext None) () example_state False idle) = None
   \<and> calls_since idle (printBluetoothDirect (example_ext None) example_state False idle) =
       [ESC_INIT, ESC_ALIGN_CENTER, ESC_BOLD_ON, FONT_SIZE_LARGE,
        Text ''HAIRI MUSTAFA ASSOCIATES'', FONT_SIZE_NORMAL, ESC_BOLD_OFF,
        Text ''Peguam Syarie & PJS'', Text ''011-5653 1310'',
        Text (replicate 32 (CHR ''-'') @ [CHR 0x0A])]
       @ [ESC_ALIGN_LEFT, Text ''Tarikh: 15/03/2024'', Text ''Nama: AHMAD BIN ALI'',
          Text ''Tel: 012-3456789'', Text ''Alamat: KUANTAN'',
          Text (replicate 32 (CHR ''-'') @ [CHR 0x0A])]
       @ [Text ''AKUAN SUMPAH'', Text ''RM 150.00'', Text ''SURAT KUASA'', Text ''RM 80.00'',
          Text (replicate 32 (CHR ''-'') @ [CHR 0x0A])]
       @ [ESC_ALIGN_CENTER, ESC_BOLD_ON, FONT_SIZE_DOUBLE_HEIGHT, Text ''JUMLAH: RM 230.00'',
          FONT_SIZE_NORMAL, ESC_BOLD_OFF]
       @ [Text ''Terima Kasih atas urusan anda.'']
       @ [ESC_FEED, ESC_FEED, ESC_FEED]
   \<and> fst (send_sequence (example_ext None) ()
          [ESC_INIT, ESC_ALIGN_CENTER, Text ''HELLO'', ESC_FEED] idle) = None
   \<and> calls_since idle (snd (send_sequence (example_ext None) ()
          [ESC_INIT, ESC_ALIGN_CENTER, Text ''HELLO'', ESC_FEED] idle)) =
       [ESC_INIT, ESC_ALIGN_CENTER, Text ''HELLO'', ESC_FEED]"
proof -
  let ?hello = "[ESC_INIT, ESC_ALIGN_CENTER, Text ''HELLO'', ESC_FEED]"
  note t = C8_receipt_order_and_hello
    [where ext = "example_ext None" and st = example_state and char = "()" and isTest = False
       and fx = idle]
  have h1: "characteristic (bt example_state) = Some ()"
    by (simp add: example_simps)
  have h2: "fst (print_job (example_ext None) () example_state False idle) = None"
    by (simp add: run_simps example_simps)
  have h3: "fst (send_sequence (example_ext None) () ?hello idle) = None"
    by (simp add: run_simps example_simps)
  have 1: "calls_since idle (printBluetoothDirect (example_ext None) example_state False idle) =
       [ESC_INIT, ESC_ALIGN_CENTER, ESC_BOLD_ON, FONT_SIZE_LARGE,
        Text ''HAIRI MUSTAFA ASSOCIATES'', FONT_SIZE_NORMAL, ESC_BOLD_OFF,
        Text ''Peguam Syarie & PJS'', Text ''011-5653 1310'',
        Text (replicate 32 (CHR ''-'') @ [CHR 0x0A])]
       @ [ESC_ALIGN_LEFT, Text ''Tarikh: 15/03/2024'', Text ''Nama: AHMAD BIN ALI'',
          Text ''Tel: 012-3456789'', Text ''Alamat: KUANTAN'',
          Text (replicate 32 (CHR ''-'') @ [CHR 0x0A])]
       @ [Text ''AKUAN SUMPAH'', Text ''RM 150.00'', Text ''SURAT KUASA'', Text ''RM 80.00'',
          Text (replicate 32 (CHR ''-'') @ [CHR 0x0A])]
       @ [ESC_ALIGN_CENTER, ESC_BOLD_ON, FONT_SIZE_DOUBLE_HEIGHT, Text ''JUMLAH: RM 230.00'',
          FONT_SIZE_NORMAL, ESC_BOLD_OFF]
       @ [Text ''Terima Kasih atas urusan anda.'']
       @ [ESC_FEED, ESC_FEED, ESC_FEED]"
    using t [THEN conjunct1] h1 h2
    by (simp add: example_simps header_cmds_def customer_cmds_def item_cmds_def total_cmds_def
        footer_cmds_def feed_cmds_def getSeparator_def formatDateForDisplay_def destructured_def
        numeral_eq_Suc)
  have 2: "calls_since idle (snd (send_sequence (example_ext None) () ?hello idle)) = ?hello"
    using t [THEN conjunct2, THEN conjunct1] h3 by blast
  from h1 h2 1 h3 2 show ?thesis by (intro conjI)
qed

subsection \<open>C9\<close>

text \<open>
  C9. In every run of \<^verbatim>\<open>printBluetoothDirect\<close> that completes (the link is connected and the
  \<^verbatim>\<open>try\<close> block ends without a throw), the formatting is restored before the job ends: every
  \<^verbatim>\<open>ESC_BOLD_ON\<close> handed to the transport is followed later by an \<^verbatim>\<open>ESC_BOLD_OFF\<close>, every
  \<^verbatim>\<open>FONT_SIZE_LARGE\<close> and every \<^verbatim>\<open>FONT_SIZE_DOUBLE_HEIGHT\<close> is followed later by a
  \<^verbatim>\<open>FONT_SIZE_NORMAL\<close>, and whatever the formatting was before, after the job bold is off
  and the size is normal. The header (the buffers before the line \<^verbatim>\<open>Peguam Syarie & PJS\<close>)
  holds the bold pair if and only if \<^verbatim>\<open>printerSettings.boldHeaders\<close> is true. Text buffers
  are taken as printable text, which leaves the formatting alone.
\<close>

theorem C9_formatting_restored:
  assumes connected: "characteristic (bt st) = Some char"
    and finished: "fst (print_job ext char st isTest fx) = None"
  shows "(\<forall>pre post. calls_since fx (printBluetoothDirect ext st isTest fx) = pre @ ESC_BOLD_ON # post
            \<longrightarrow> ESC_BOLD_OFF \<in> set post)
       \<and> (\<forall>pre post. calls_since fx (printBluetoothDirect ext st isTest fx) = pre @ FONT_SIZE_LARGE # post
            \<longrightarrow> FONT_SIZE_NORMAL \<in> set post)
       \<and> (\<forall>pre post. calls_since fx (printBluetoothDirect ext st isTest fx)
                          = pre @ FONT_SIZE_DOUBLE_HEIGHT # post
            \<longrightarrow> FONT_SIZE_NORMAL \<in> set post)
       \<and> bold (formatting_after f (calls_since fx (printBluetoothDirect ext st isTest fx))) = False
       \<and> glyphSize (formatting_after f (calls_since fx (printBluetoothDirect ext st isTest fx)))
           = SizeNormal
       \<and> takeWhile (\<lambda>c. c \<noteq> Text ''Peguam Syarie & PJS'')
             (calls_since fx (printBluetoothDirect ext st isTest fx)) =
           [ESC_INIT, ESC_ALIGN_CENTER]
           @ (if boldHeaders (printerSettings st) then [ESC_BOLD_ON] else [])
           @ [FONT_SIZE_LARGE, Text ''HAIRI MUSTAFA ASSOCIATES'', FONT_SIZE_NORMAL]
           @ (if boldHeaders (printerSettings st) then [ESC_BOLD_OFF] else [])
       \<and> (ESC_BOLD_ON \<in> set (takeWhile (\<lambda>c. c \<noteq> Text ''Peguam Syarie & PJS'')
                                 (calls_since fx (printBluetoothDirect ext st isTest fx)))
            \<longleftrightarrow> boldHeaders (printerSettings st))
       \<and> (ESC_BOLD_OFF \<in> set (takeWhile (\<lambda>c. c \<noteq> Text ''Peguam Syarie & PJS'')
                                  (calls_since fx (printBluetoothDirect ext st isTest fx)))
            \<longleftrightarrow> boldHeaders (printerSettings st))"
proof -
  let ?cs = "receipt_cmds ext st isTest"
  have calls: "calls_since fx (printBluetoothDirect ext st isTest fx) = ?cs"
    by (rule printBluetoothDirect_completes(1) [OF connected finished])
  have tail1: "ESC_BOLD_ON \<notin> set (footer_cmds st @ feed_cmds st)"
    by (simp add: footer_cmds_def feed_cmds_def)
  have tail2: "FONT_SIZE_LARGE \<notin> set (ESC_BOLD_OFF # footer_cmds st @ feed_cmds st)"
    "FONT_SIZE_DOUBLE_HEIGHT \<notin> set (ESC_BOLD_OFF # footer_cmds st @ feed_cmds st)"
    by (simp_all add: footer_cmds_def feed_cmds_def)
  have 1: "\<forall>pre post. ?cs = pre @ ESC_BOLD_ON # post \<longrightarrow> ESC_BOLD_OFF \<in> set post"
    using later_in_list [OF receipt_ends_bold_off tail1] by blast
  have 2: "\<forall>pre post. ?cs = pre @ FONT_SIZE_LARGE # post \<longrightarrow> FONT_SIZE_NORMAL \<in> set post"
    using later_in_list [OF receipt_ends_font_normal tail2(1)] by blast
  have 3: "\<forall>pre post. ?cs = pre @ FONT_SIZE_DOUBLE_HEIGHT # post \<longrightarrow> FONT_SIZE_NORMAL \<in> set post"
    using later_in_list [OF receipt_ends_font_normal tail2(2)] by blast
  have 4: "bold (formatting_after f ?cs) = False" "glyphSize (formatting_after f ?cs) = SizeNormal"
    by (simp_all add: receipt_formatting)
  have 5: "takeWhile (\<lambda>c. c \<noteq> Text ''Peguam Syarie & PJS'') ?cs =
      [ESC_INIT, ESC_ALIGN_CENTER]
      @ (if boldHeaders (printerSettings st) then [ESC_BOLD_ON] else [])
      @ [FONT_SIZE_LARGE, Text ''HAIRI MUSTAFA ASSOCIATES'', FONT_SIZE_NORMAL]
      @ (if boldHeaders (printerSettings st) then [ESC_BOLD_OFF] else [])"
    by (rule receipt_header)
  have 6: "ESC_BOLD_ON \<in> set (takeWhile (\<lambda>c. c \<noteq> Text ''Peguam Syarie & PJS'') ?cs)
      \<longleftrightarrow> boldHeaders (printerSettings st)"
    "ESC_BOLD_OFF \<in> set (takeWhile (\<lambda>c. c \<noteq> Text ''Peguam Syarie & PJS'') ?cs)
      \<longleftrightarrow> boldHeaders (printerSettings st)"
    unfolding 5 by simp_all
  show ?thesis
    unfolding calls using 1 2 3 4 5 6 by blast
qed

theorem C9_formatting_restored_witness:
  "characteristic (bt example_state) = Some ()
   \<and> fst (print_job (example_ext None) () example_state False idle) = None
   \<and> take 3 (calls_since idle (printBluetoothDirect (example_ext None) example_state False idle)) =
       [ESC_INIT, ESC_ALIGN_CENTER, ESC_BOLD_ON]
   \<and> ESC_BOLD_OFF \<in> set (drop 3
         (calls_since idle (printBluetoothDirect (example_ext None) example_state False idle)))
   \<and> calls_since idle (printBluetoothDirect (example_ext None) example_state False idle) ! 3 =
       FONT_SIZE_LARGE
   \<and> FONT_SIZE_NORMAL \<in> set (drop 4
         (calls_since idle (printBluetoothDirect (example_ext None) example_state False idle)))
   \<and> calls_since idle (printBluetoothDirect (example_ext None) example_state False idle) ! 23 =
       FONT_SIZE_DOUBLE_HEIGHT
   \<and> FONT_SIZE_NORMAL \<in> set (drop 24
         (calls_since idle (printBluetoothDirect (example_ext None) example_state False idle)))
   \<and> formatting_after \<lparr>bold = True, glyphSize = SizeDoubleHeight\<rparr>
         (calls_since idle (printBluetoothDirect (example_ext None) example_state False idle)) =
       \<lparr>bold = False, glyphSize = SizeNormal\<rparr>
   \<and> takeWhile (\<lambda>c. c \<noteq> Text ''Peguam Syarie & PJS'')
         (calls_since idle (printBluetoothDirect (example_ext None) example_state False idle)) =
       [ESC_INIT, ESC_ALIGN_CENTER, ESC_BOLD_ON, FONT_SIZE_LARGE,
        Text ''HAIRI MUSTAFA ASSOCIATES'', FONT_SIZE_NORMAL, ESC_BOLD_OFF]"
proof -
  let ?calls = "calls_since idle (printBluetoothDirect (example_ext None) example_state False idle)"
  let ?f = "\<lparr>bold = True, glyphSize = SizeDoubleHeight\<rparr>"
  have h1: "characteristic (bt example_state) = Some ()"
    by (simp add: example_simps)
  have h2: "fst (print_job (example_ext None) () example_state False idle) = None"
    by (simp add: run_simps example_simps)
  have b: "boldHeaders (printerSettings example_state)"
    by (simp add: example_simps)
  have t: "take 3 ?calls = [ESC_INIT, ESC_ALIGN_CENTER, ESC_BOLD_ON]"
    using h1 by (simp add: run_simps example_simps)
  then have split: "?calls = [ESC_INIT, ESC_ALIGN_CENTER] @ ESC_BOLD_ON # drop 3 ?calls"
    by (metis append_take_drop_id append_Cons append_Nil append_assoc)
  note c9 = C9_formatting_restored [OF h1 h2, of ?f]
  from c9 split have off: "ESC_BOLD_OFF \<in> set (drop 3 ?calls)"
    by blast
  have len: "length ?calls = 31"
    using h1 by (simp add: run_simps example_simps)
  have l: "?calls ! 3 = FONT_SIZE_LARGE" and d: "?calls ! 23 = FONT_SIZE_DOUBLE_HEIGHT"
    using h1 by (simp_all add: run_simps example_simps)
  have "?calls = take 3 ?calls @ ?calls ! 3 # drop (Suc 3) ?calls"
    using len by (intro id_take_nth_drop) simp
  then have "?calls = take 3 ?calls @ FONT_SIZE_LARGE # drop 4 ?calls"
    using l by simp
  with c9 have normal1: "FONT_SIZE_NORMAL \<in> set (drop 4 ?calls)"
    by blast
  have "?calls = take 23 ?calls @ ?calls ! 23 # drop (Suc 23) ?calls"
    using len by (intro id_take_nth_drop) simp
  then have "?calls = take 23 ?calls @ FONT_SIZE_DOUBLE_HEIGHT # drop 24 ?calls"
    using d by simp
  with c9 have normal2: "FONT_SIZE_NORMAL \<in> set (drop 24 ?calls)"
    by blast
  from c9 have fmt: "bold (formatting_after ?f ?calls) = False"
    "glyphSize (formatting_after ?f ?calls) = SizeNormal"
    by blast+
  then have fmt': "formatting_after ?f ?calls = \<lparr>bold = False, glyphSize = SizeNormal\<rparr>"
    by (cases "formatting_after ?f ?calls") simp
  from c9 b have hdr: "takeWhile (\<lambda>c. c \<noteq> Text ''Peguam Syarie & PJS'') ?calls =
      [ESC_INIT, ESC_ALIGN_CENTER, ESC_BOLD_ON, FONT_SIZE_LARGE,
       Text ''HAIRI MUSTAFA ASSOCIATES'', FONT_SIZE_NORMAL, ESC_BOLD_OFF]"
    by simp
  from h1 h2 t off l normal1 d normal2 fmt' hdr show ?thesis by (intro conjI)
qed

subsection \<open>C10\<close>

text \<open>
  C10, as stated, says that a test print never emits a \<^verbatim>\<open>Tel:\<close> or \<^verbatim>\<open>Alamat:\<close> line. The footer
  is free text from the settings (line 385) and is printed in a test print too: with the
  footer \<^verbatim>\<open>Tel: 011-5653 1310\<close> a completed test print emits that line.
\<close>

theorem C10_tel_line_from_footer_counterexample:
  "characteristic (bt footer_tel_state) = Some ()
   \<and> fst (print_job (example_ext None) () footer_tel_state True idle) = None
   \<and> Text ''Tel: 011-5653 1310''
       \<in> set (calls_since idle (printBluetoothDirect (example_ext None) footer_tel_state True idle))
   \<and> take 5 ''Tel: 011-5653 1310'' = ''Tel: ''"
  by (simp add: run_simps example_simps footer_tel_state_def)

text \<open>
  C10, amended. With \<^verbatim>\<open>isTest = true\<close> the run does not depend on the cart (nor on the total
  computed from it), on the customer's phone and address, or on the \<^verbatim>\<open>includePhone\<close> and
  \<^verbatim>\<open>includeAddress\<close> settings: two states that differ only there give the same run, whatever
  the transport does. A completed test print hands over exactly the buffers listed below:
  the body is \<^verbatim>\<open>TEST SERVICE\<close> and \<^verbatim>\<open>RM 10.00\<close>, the total line is \<^verbatim>\<open>JUMLAH: RM 10.00\<close>, and no
  line follows \<^verbatim>\<open>Nama: TEST PRINT\<close> before the separator. In every test print, completed or
  not, a text that begins with \<^verbatim>\<open>Tel: \<close> or \<^verbatim>\<open>Alamat: \<close> can only be the configured footer
  text.
\<close>

theorem C10_test_print_ignores_customer_data:
  "printBluetoothDirect ext
      (st\<lparr>cart := c, total' := t,
          clientForm := (clientForm st)\<lparr>phone := p, address := a\<rparr>,
          printerSettings := (printerSettings st)\<lparr>includePhone := ip, includeAddress := ia\<rparr>\<rparr>)
      True fx =
    printBluetoothDirect ext st True fx
   \<and> (characteristic (bt st) = Some char \<and> fst (print_job ext char st True fx) = None \<longrightarrow>
        calls_since fx (printBluetoothDirect ext st True fx) =
          [ESC_INIT, ESC_ALIGN_CENTER]
          @ (if boldHeaders (printerSettings st) then [ESC_BOLD_ON] else [])
          @ [FONT_SIZE_LARGE, Text ''HAIRI MUSTAFA ASSOCIATES'', FONT_SIZE_NORMAL]
          @ (if boldHeaders (printerSettings st) then [ESC_BOLD_OFF] else [])
          @ [Text ''Peguam Syarie & PJS'', Text ''011-5653 1310'',
             Text (getSeparator (lineTerminator ext) (paperWidth (printerSettings st))),
             ESC_ALIGN_LEFT,
             Text (''Tarikh: '' @ formatDateForDisplay (date (clientForm st))),
             Text ''Nama: TEST PRINT'',
             Text (getSeparator (lineTerminator ext) (paperWidth (printerSettings st))),
             Text ''TEST SERVICE'',
             Text ''RM 10.00'',
             Text (getSeparator (lineTerminator ext) (paperWidth (printerSettings st))),
             ESC_ALIGN_CENTER, ESC_BOLD_ON, FONT_SIZE_DOUBLE_HEIGHT,
             Text ''JUMLAH: RM 10.00'',
             FONT_SIZE_NORMAL, ESC_BOLD_OFF,
             Text (if footerText (printerSettings st) = [] then ''Terima Kasih''
                   else footerText (printerSettings st))]
          @ replicate (nat (extraFeeds (printerSettings st))) ESC_FEED)
   \<and> (\<forall>s. Text s \<in> set (calls_since fx (printBluetoothDirect ext st True fx))
            \<and> (take 5 s = ''Tel: '' \<or> take 8 s = ''Alamat: '')
          \<longrightarrow> s = footerText (printerSettings st))"
proof -
  let ?st' = "st\<lparr>cart := c, total' := t,
          clientForm := (clientForm st)\<lparr>phone := p, address := a\<rparr>,
          printerSettings := (printerSettings st)\<lparr>includePhone := ip, includeAddress := ia\<rparr>\<rparr>"
  have 1: "printBluetoothDirect ext ?st' True fx = printBluetoothDirect ext st True fx"
  proof (cases "characteristic (bt st)")
    case None
    then show ?thesis by (simp add: printBluetoothDirect_def)
  next
    case (Some h)
    then show ?thesis
      by (simp add: printBluetoothDirect_def print_job_send_sequence test_receipt_independent)
  qed
  have 2: "characteristic (bt st) = Some char \<and> fst (print_job ext char st True fx) = None \<longrightarrow>
      calls_since fx (printBluetoothDirect ext st True fx) = receipt_cmds ext st True"
    using printBluetoothDirect_completes(1) [of st char ext True fx] by blast
  have 3: "\<forall>s. Text s \<in> set (calls_since fx (printBluetoothDirect ext st True fx))
            \<and> (take 5 s = ''Tel: '' \<or> take 8 s = ''Alamat: '')
          \<longrightarrow> s = footerText (printerSettings st)"
  proof (intro allI impI, elim conjE)
    fix s
    assume that: "Text s \<in> set (calls_since fx (printBluetoothDirect ext st True fx))"
      "take 5 s = ''Tel: '' \<or> take 8 s = ''Alamat: ''"
    obtain n where "calls_since fx (printBluetoothDirect ext st True fx) =
        take n (receipt_cmds ext st True)"
      using printBluetoothDirect_seen [of ext st True fx] by blast
    with that(1) have "Text s \<in> set (receipt_cmds ext st True)"
      by (auto dest: in_set_takeD)
    then show "s = footerText (printerSettings st)"
      using that(2) by (rule test_receipt_tel_lines)
  qed
  have list: "receipt_cmds ext st True =
          [ESC_INIT, ESC_ALIGN_CENTER]
          @ (if boldHeaders (printerSettings st) then [ESC_BOLD_ON] else [])
          @ [FONT_SIZE_LARGE, Text ''HAIRI MUSTAFA ASSOCIATES'', FONT_SIZE_NORMAL]
          @ (if boldHeaders (printerSettings st) then [ESC_BOLD_OFF] else [])
          @ [Text ''Peguam Syarie & PJS'', Text ''011-5653 1310'',
             Text (getSeparator (lineTerminator ext) (paperWidth (printerSettings st))),
             ESC_ALIGN_LEFT,
             Text (''Tarikh: '' @ formatDateForDisplay (date (clientForm st))),
             Text ''Nama: TEST PRINT'',
             Text (getSeparator (lineTerminator ext) (paperWidth (printerSettings st))),
             Text ''TEST SERVICE'',
             Text ''RM 10.00'',
             Text (getSeparator (lineTerminator ext) (paperWidth (printerSettings st))),
             ESC_ALIGN_CENTER, ESC_BOLD_ON, FONT_SIZE_DOUBLE_HEIGHT,
             Text ''JUMLAH: RM 10.00'',
             FONT_SIZE_NORMAL, ESC_BOLD_OFF,
             Text (if footerText (printerSettings st) = [] then ''Terima Kasih''
                   else footerText (printerSettings st))]
          @ replicate (nat (extraFeeds (printerSettings st))) ESC_FEED"
    by (simp add: test_receipt header_cmds_def)
  show ?thesis
    using 1 2 [unfolded list] 3 by (intro conjI)
qed


theorem C10_test_print_ignores_customer_data_witness:
  "printBluetoothDirect (example_ext None)
      (example_state\<lparr>cart := [], total' := 0,
          clientForm := (clientForm example_state)\<lparr>phone := ''019-9876543'', address := []\<rparr>,
          printerSettings :=
            (printerSettings example_state)\<lparr>includePhone := False, includeAddress := False\<rparr>\<rparr>)
      True idle =
    printBluetoothDirect (example_ext None) example_state True idle
   \<and> characteristic (bt example_state) = Some ()
   \<and> fst (print_job (example_ext None) () example_state True idle) = None
   \<and> calls_since idle (printBluetoothDirect (example_ext None) example_state True idle) =
       [ESC_INIT, ESC_ALIGN_CENTER, ESC_BOLD_ON, FONT_SIZE_LARGE,
        Text ''HAIRI MUSTAFA ASSOCIATES'', FONT_SIZE_NORMAL, ESC_BOLD_OFF,
        Text ''Peguam Syarie & PJS'', Text ''011-5653 1310'',
        Text (replicate 32 (CHR ''-'') @ [CHR 0x0A]), ESC_ALIGN_LEFT,
        Text ''Tarikh: 15/03/2024'', Text ''Nama: TEST PRINT'',
        Text (replicate 32 (CHR ''-'') @ [CHR 0x0A]), Text ''TEST SERVICE'', Text ''RM 10.00'',
        Text (replicate 32 (CHR ''-'') @ [CHR 0x0A]),
        ESC_ALIGN_CENTER, ESC_BOLD_ON, FONT_SIZE_DOUBLE_HEIGHT, Text ''JUMLAH: RM 10.00'',
        FONT_SIZE_NORMAL, ESC_BOLD_OFF, Text ''Terima Kasih atas urusan anda.'',
        ESC_FEED, ESC_FEED, ESC_FEED]
   \<and> Text ''Tel: 011-5653 1310''
       \<in> set (calls_since idle (printBluetoothDirect (example_ext None) footer_tel_state True idle))
   \<and> take 5 ''Tel: 011-5653 1310'' = ''Tel: ''
   \<and> ''Tel: 011-5653 1310'' = footerText (printerSettings footer_tel_state)"
proof -
  note a = C10_test_print_ignores_customer_data
    [where ext = "example_ext None" and st = example_state and c = "[]" and t = 0
       and p = "''019-9876543''" and a = "[]" and ip = False and ia = False
       and fx = idle and char = "()"]
  note b = C10_test_print_ignores_customer_data
    [where ext = "example_ext None" and st = footer_tel_state and fx = idle]
  have h1: "characteristic (bt example_state) = Some ()"
    by (simp add: example_simps)
  have h2: "fst (print_job (example_ext None) () example_state True idle) = None"
    by (simp add: run_simps example_simps)
  have 1: "printBluetoothDirect (example_ext None)
      (example_state\<lparr>cart := [], total' := 0,
          clientForm := (clientForm example_state)\<lparr>phone := ''019-9876543'', address := []\<rparr>,
          printerSettings :=
            (printerSettings example_state)\<lparr>includePhone := False, includeAddress := False\<rparr>\<rparr>)
      True idle =
    printBluetoothDirect (example_ext None) example_state True idle"
    by (rule a [THEN conjunct1])
  have 2: "calls_since idle (printBluetoothDirect (example_ext None) example_state True idle) =
       [ESC_INIT, ESC_ALIGN_CENTER, ESC_BOLD_ON, FONT_SIZE_LARGE,
        Text ''HAIRI MUSTAFA ASSOCIATES'', FONT_SIZE_NORMAL, ESC_BOLD_OFF,
        Text ''Peguam Syarie & PJS'', Text ''011-5653 1310'',
        Text (replicate 32 (CHR ''-'') @ [CHR 0x0A]), ESC_ALIGN_LEFT,
        Text ''Tarikh: 15/03/2024'', Text ''Nama: TEST PRINT'',
        Text (replicate 32 (CHR ''-'') @ [CHR 0x0A]), Text ''TEST SERVICE'', Text ''RM 10.00'',
        Text (replicate 32 (CHR ''-'') @ [CHR 0x0A]),
        ESC_ALIGN_CENTER, ESC_BOLD_ON, FONT_SIZE_DOUBLE_HEIGHT, Text ''JUMLAH: RM 10.00'',
        FONT_SIZE_NORMAL, ESC_BOLD_OFF, Text ''Terima Kasih atas urusan anda.'',
        ESC_FEED, ESC_FEED, ESC_FEED]"
    using a [THEN conjunct2, THEN conjunct1] h1 h2
    by (simp add: example_simps getSeparator_def formatDateForDisplay_def destructured_def
        numeral_eq_Suc)
  have 3: "Text ''Tel: 011-5653 1310''
       \<in> set (calls_since idle (printBluetoothDirect (example_ext None) footer_tel_state True idle))"
    by (simp add: run_simps example_simps footer_tel_state_def)
  have 4: "take 5 ''Tel: 011-5653 1310'' = ''Tel: ''"
    by simp
  have 5: "''Tel: 011-5653 1310'' = footerText (printerSettings footer_tel_state)"
    using b [THEN conjunct2, THEN conjunct2, THEN spec, of "''Tel: 011-5653 1310''"] 3 4
    by blast
  from 1 h1 h2 2 3 4 5 show ?thesis by (intro conjI)
qed

end
